theory Spec2Isabelle
  imports Complex_Main "HOL-Library.Signed_Division" "HOL-Library.AList" "HOL-Library.Sublist"
begin

section \<open>Machine integers\<close>

text \<open>
  Go's \<^verbatim>\<open>int64\<close> is modelled as \<^typ>\<open>int\<close> with the two's-complement wrap-around
  written out.  \<open>int64 x\<close> says that \<open>x\<close> is a value of the type; \<open>wrap64\<close> is what an
  arithmetic result is reduced to.  Go's \<^verbatim>\<open>/\<close> and \<^verbatim>\<open>%\<close> truncate towards zero: they are
  \<open>sdiv\<close> and \<open>smod\<close> of the library.
\<close>

definition int64 :: "int \<Rightarrow> bool" where
  "int64 x \<longleftrightarrow> - (2 ^ 63) \<le> x \<and> x < 2 ^ 63"

definition wrap64 :: "int \<Rightarrow> int" where
  "wrap64 x = (x + 2 ^ 63) mod 2 ^ 64 - 2 ^ 63"

definition add64 :: "int \<Rightarrow> int \<Rightarrow> int" where
  "add64 a b = wrap64 (a + b)"

definition sub64 :: "int \<Rightarrow> int \<Rightarrow> int" where
  "sub64 a b = wrap64 (a - b)"

definition mul64 :: "int \<Rightarrow> int \<Rightarrow> int" where
  "mul64 a b = wrap64 (a * b)"

definition quo64 :: "int \<Rightarrow> int \<Rightarrow> int" where
  "quo64 a b = wrap64 (a sdiv b)"

definition rem64 :: "int \<Rightarrow> int \<Rightarrow> int" where
  "rem64 a b = a smod b"

section \<open>Quorum arithmetic (gpbft.go, general helpers)\<close>

text \<open>
  \<^verbatim>\<open>divCeil\<close> is only ever called with the constant divisor 3, so Go's panic on a zero
  divisor is not a branch of it.
\<close>

definition divCeil :: "int \<Rightarrow> int \<Rightarrow> int" where
  "divCeil a b =
     (let quo = quo64 a b; rem = rem64 a b
      in if rem \<noteq> 0 then add64 quo 1 else quo)"

definition IsStrongQuorum :: "int \<Rightarrow> int \<Rightarrow> bool" where
  "IsStrongQuorum part whole \<longleftrightarrow> part \<ge> divCeil (mul64 2 whole) 3"

definition hasWeakQuorum :: "int \<Rightarrow> int \<Rightarrow> bool" where
  "hasWeakQuorum part whole \<longleftrightarrow> part > divCeil whole 3"

text \<open>The ceiling of the exact quotient, as the specification uses it.\<close>

definition ceil_div_spec :: "int \<Rightarrow> int \<Rightarrow> int" where
  "ceil_div_spec a b = - ((- a) div b)"

section \<open>Errors and panics\<close>

text \<open>
  An \<^verbatim>\<open>error\<close> is a value a Go function returns; a \<open>panic\<close> aborts the call, so a
  function that may panic returns \<open>panic + 'a\<close> with \<open>Inl\<close> for the panic.  Formatted
  messages are kept as constructors with the values they print.
\<close>

datatype error =
    ErrTipsetNil
  | ErrTipsetKeyEmpty
  | ErrTipsetKeyTooLong
  | ErrPowerTableCidEmpty
  | ErrPowerTableCidTooLong
  | ErrChainTooLong
  | ErrTipset nat error
  | ErrChainEpochs int int
  | ErrInputEmpty
  | ErrReceivedAfterTermination
  | ErrReceivedWrongInstance
  | ErrValidationWrongSupplement
  | ErrValidationWrongBase
  | ErrBottomConverge
  | ErrNilJustificationConverge
  | ErrFailedConverge error
  | ErrUnexpectedMessagePhase
  | ErrUnexpectedPhase
  | ErrCannotTransition
  | ErrNoValuesAtConverge
  | ErrFailedPhase error
  | ErrEncodedTooLarge nat
  | ErrMarshal
  | ErrUnmarshal
  | ErrDecompress

datatype panic =
    PanicDuplicateMessage
  | PanicNilJustification
  | PanicSignerNotFound nat
  | PanicInvalidSignerIndex nat nat
  | PanicStrongQuorumNotFound
  | PanicMultipleStrongQuorum
  | PanicIndexOutOfRange
  | PanicNilDereference
  | PanicConvergeWrongRound
  | PanicCommitNoQuorum
  | PanicDecideNoQuorum
  | PanicTryDecideNoQuorum
  | PanicNoJustificationForProposal
  | PanicAggregate

definition andThen :: "panic + 'a \<Rightarrow> ('a \<Rightarrow> panic + 'b) \<Rightarrow> panic + 'b" where
  "andThen m f = (case m of Inl p \<Rightarrow> Inl p | Inr x \<Rightarrow> f x)"

section \<open>Chain model (chain.go)\<close>

text \<open>
  Byte strings are lists of naturals below 256.  A \<^verbatim>\<open>cid.Cid\<close> (a type of the go-cid
  library) is modelled by its bytes: it is defined when it is not empty, and its
  \<^verbatim>\<open>ByteLen\<close> is its length.
\<close>

type_synonym bytes = "nat list"

type_synonym ActorID = nat

definition CidMaxLen :: nat where "CidMaxLen = 38"
definition ChainMaxLen :: nat where "ChainMaxLen = 128"
definition TipsetKeyMaxLen :: nat where "TipsetKeyMaxLen = 20 * CidMaxLen"

record TipSet =
  Epoch :: int
  Key :: bytes
  PowerTable :: bytes
  Commitments :: bytes

text \<open>\<^verbatim>\<open>TipSet.Validate\<close> has a pointer receiver: \<open>None\<close> is the nil pointer.\<close>

definition TipSet_Validate :: "TipSet option \<Rightarrow> error option" where
  "TipSet_Validate p =
     (case p of
        None \<Rightarrow> Some ErrTipsetNil
      | Some ts \<Rightarrow>
          if length (Key ts) = 0 then Some ErrTipsetKeyEmpty
          else if length (Key ts) > TipsetKeyMaxLen then Some ErrTipsetKeyTooLong
          else if PowerTable ts = [] then Some ErrPowerTableCidEmpty
          else if length (PowerTable ts) > CidMaxLen then Some ErrPowerTableCidTooLong
          else None)"

definition TipSet_Equal :: "TipSet option \<Rightarrow> TipSet option \<Rightarrow> bool" where
  "TipSet_Equal a b =
     (case (a, b) of
        (Some x, Some y) \<Rightarrow>
          Epoch x = Epoch y \<and> Key x = Key y \<and> PowerTable x = PowerTable y
          \<and> Commitments x = Commitments y
      | _ \<Rightarrow> a = b)"

text \<open>
  A chain is the list of its tipsets; the zero value (bottom) is the empty list, which
  also stands for a nil chain pointer in gpbft.go, where \<^verbatim>\<open>IsZero\<close>, \<^verbatim>\<open>Key\<close> and \<^verbatim>\<open>Len\<close>
  are called on \<^verbatim>\<open>*ECChain\<close>.
\<close>

type_synonym ECChain = "TipSet list"

type_synonym ChainKey = bytes

definition IsZero :: "ECChain \<Rightarrow> bool" where
  "IsZero c \<longleftrightarrow> length c = 0"

definition HasSuffix :: "ECChain \<Rightarrow> bool" where
  "HasSuffix c \<longleftrightarrow> length c > 1"

definition Base :: "ECChain \<Rightarrow> TipSet option" where
  "Base c = (if IsZero c then None else Some (c ! 0))"

definition Suffix :: "ECChain \<Rightarrow> TipSet list" where
  "Suffix c = (if IsZero c then [] else drop 1 c)"

definition Head :: "ECChain \<Rightarrow> TipSet option" where
  "Head c = (if IsZero c then None else Some (c ! (length c - 1)))"

definition BaseChain :: "ECChain \<Rightarrow> ECChain" where
  "BaseChain c = (if IsZero c then [] else [c ! 0])"

text \<open>
  \<^verbatim>\<open>Prefix\<close> takes an \<^verbatim>\<open>int\<close>; every caller passes a non-negative one, so the argument
  is a natural number here.
\<close>

definition Prefix :: "ECChain \<Rightarrow> nat \<Rightarrow> ECChain" where
  "Prefix c to = (if IsZero c then [] else (let len = min (to + 1) (length c) in take len c))"

fun Eq_loop :: "(TipSet \<times> TipSet) list \<Rightarrow> bool" where
  "Eq_loop [] = True"
| "Eq_loop ((x, y) # rest) =
     (if \<not> TipSet_Equal (Some x) (Some y) then False else Eq_loop rest)"

definition Eq :: "ECChain \<Rightarrow> ECChain \<Rightarrow> bool" where
  "Eq c other = (if length c \<noteq> length other then False else Eq_loop (zip c other))"

definition HasBase :: "ECChain \<Rightarrow> TipSet option \<Rightarrow> bool" where
  "HasBase c t \<longleftrightarrow> t \<noteq> None \<and> \<not> IsZero c \<and> TipSet_Equal (Base c) t"

fun Validate_from :: "nat \<Rightarrow> int \<Rightarrow> TipSet list \<Rightarrow> error option" where
  "Validate_from i lastEpoch [] = None"
| "Validate_from i lastEpoch (ts # rest) =
     (case TipSet_Validate (Some ts) of
        Some err \<Rightarrow> Some (ErrTipset i err)
      | None \<Rightarrow>
          if Epoch ts \<le> lastEpoch then Some (ErrChainEpochs (Epoch ts) lastEpoch)
          else Validate_from (Suc i) (Epoch ts) rest)"

definition ECChain_Validate :: "ECChain \<Rightarrow> error option" where
  "ECChain_Validate c =
     (if IsZero c then None
      else if length c > ChainMaxLen then Some ErrChainTooLong
      else Validate_from 0 (- 1) c)"

text \<open>Big-endian encodings written by \<^verbatim>\<open>binary.Write\<close>.\<close>

definition be64 :: "int \<Rightarrow> bytes" where
  "be64 e =
     (let u = nat (e mod 2 ^ 64)
      in [u div 2 ^ 56 mod 256, u div 2 ^ 48 mod 256, u div 2 ^ 40 mod 256,
          u div 2 ^ 32 mod 256, u div 2 ^ 24 mod 256, u div 2 ^ 16 mod 256,
          u div 2 ^ 8 mod 256, u mod 256])"

definition be32 :: "nat \<Rightarrow> bytes" where
  "be32 n =
     (let u = n mod 2 ^ 32
      in [u div 2 ^ 24 mod 256, u div 2 ^ 16 mod 256, u div 2 ^ 8 mod 256, u mod 256])"

definition TipSet_keyBytes :: "TipSet \<Rightarrow> bytes" where
  "TipSet_keyBytes ts =
     be64 (Epoch ts) @ Commitments ts @ be32 (length (Key ts)) @ Key ts @ PowerTable ts"

fun ECChain_Key :: "ECChain \<Rightarrow> ChainKey" where
  "ECChain_Key [] = []"
| "ECChain_Key (ts # rest) = TipSet_keyBytes ts @ ECChain_Key rest"

definition Key_IsZero :: "ChainKey \<Rightarrow> bool" where
  "Key_IsZero k \<longleftrightarrow> k = []"

section \<open>Power table, payloads and justifications\<close>

text \<open>
  Unsigned 64-bit counters (instance and round numbers) are naturals with the
  wrap-around written out.
\<close>

definition add_u64 :: "nat \<Rightarrow> nat \<Rightarrow> nat" where
  "add_u64 a b = (a + b) mod 2 ^ 64"

definition sub_u64 :: "nat \<Rightarrow> nat \<Rightarrow> nat" where
  "sub_u64 a b = (a + 2 ^ 64 - b mod 2 ^ 64) mod 2 ^ 64"

record PowerEntry =
  ID :: ActorID
  Power :: int
  PubKey :: bytes

text \<open>
  The type \<^verbatim>\<open>PowerTable\<close> is declared outside the files at hand; its fields are the ones
  gpbft.go reads.  \<^verbatim>\<open>Lookup\<close> is a Go map from actor to index.
\<close>

record PowerTable =
  Entries :: "PowerEntry list"
  ScaledPower :: "int list"
  Lookup :: "ActorID \<rightharpoonup> nat"
  Total :: int
  ScaledTotal :: int

text \<open>
  Modelled from the spec: \<^verbatim>\<open>PowerTable.Get\<close> is missing from the files at hand.  The
  table "precomputes \<open>scaled_power[i]\<close> ... and an \<open>id \<rightarrow> index\<close> lookup": the power of a
  sender is the scaled power at its index, and an actor that is not in the lookup has
  power zero.  An index outside the table is Go's index-out-of-range panic.
\<close>

definition PowerTable_Get :: "PowerTable \<Rightarrow> ActorID \<Rightarrow> panic + int" where
  "PowerTable_Get pt sender =
     (case Lookup pt sender of
        Some index \<Rightarrow>
          if index < length (Entries pt) \<and> index < length (ScaledPower pt)
          then Inr (ScaledPower pt ! index)
          else Inl PanicIndexOutOfRange
      | None \<Rightarrow> Inr 0)"

datatype Phase =
    INITIAL_PHASE
  | QUALITY_PHASE
  | CONVERGE_PHASE
  | PREPARE_PHASE
  | COMMIT_PHASE
  | DECIDE_PHASE
  | TERMINATED_PHASE

record SupplementalData =
  sdCommitments :: bytes
  sdPowerTable :: bytes

record Payload =
  Instance :: nat
  Round :: nat
  Phase :: Phase
  SupplementalData :: SupplementalData
  Value :: ECChain

text \<open>The signers bitfield of a justification is the list of the set indices.\<close>

record Justification =
  jVote :: Payload
  jSigners :: "nat list"
  jSignature :: bytes

record GMessage =
  Sender :: ActorID
  Vote :: Payload
  Signature :: "bytes option"
  Ticket :: bytes
  Justification :: "Justification option"

section \<open>Quorum accumulator (gpbft.go, quorumState)\<close>

text \<open>
  Go maps that the code ranges over are association lists with distinct keys: a lookup
  is \<open>map_of\<close>, a store is \<open>AList.update\<close>, and a \<^verbatim>\<open>range\<close> loop visits the list in
  order.  Go leaves that order unspecified; the list order is one of the orders it may
  take.  Maps that are only looked up are sets or partial functions.  A signature is a
  byte slice that may be nil: \<open>None\<close> is nil.
\<close>

record chainSupport =
  csChain :: ECChain
  csPower :: int
  csSignatures :: "(ActorID \<times> bytes option) list"
  csHasStrongQuorum :: bool

record quorumState =
  senders :: "ActorID set"
  sendersTotalPower :: int
  chainSupport :: "(ChainKey \<times> chainSupport) list"
  powerTable :: PowerTable
  receivedJustification :: "(ChainKey \<times> Justification) list"

definition newQuorumState :: "PowerTable \<Rightarrow> quorumState" where
  "newQuorumState pt =
     \<lparr>senders = {}, sendersTotalPower = 0, chainSupport = [], powerTable = pt,
      receivedJustification = []\<rparr>"

definition receiveSender :: "quorumState \<Rightarrow> ActorID \<Rightarrow> panic + (quorumState \<times> int \<times> bool)" where
  "receiveSender q sender =
     (if sender \<in> senders q then Inr (q, 0, False)
      else andThen (PowerTable_Get (powerTable q) sender) (\<lambda>senderPower.
        Inr (q\<lparr>senders := insert sender (senders q),
                sendersTotalPower := add64 (sendersTotalPower q) senderPower\<rparr>,
             senderPower, True)))"

definition signatureOf :: "(ActorID \<times> bytes option) list \<Rightarrow> ActorID \<Rightarrow> bytes option" where
  "signatureOf sigs sender = (case map_of sigs sender of Some sg \<Rightarrow> sg | None \<Rightarrow> None)"

definition receiveInner ::
  "quorumState \<Rightarrow> ActorID \<Rightarrow> ECChain \<Rightarrow> int \<Rightarrow> bytes option \<Rightarrow> panic + quorumState" where
  "receiveInner q sender val pow signature =
     (let key = ECChain_Key val;
          candidate = (case map_of (chainSupport q) key of
                         Some c \<Rightarrow> c
                       | None \<Rightarrow> \<lparr>csChain = val, csPower = 0, csSignatures = [],
                                   csHasStrongQuorum = False\<rparr>);
          candidate1 = candidate\<lparr>csPower := add64 (csPower candidate) pow\<rparr>
      in if signatureOf (csSignatures candidate1) sender \<noteq> None then Inl PanicDuplicateMessage
         else
           (let candidate2 = candidate1\<lparr>csSignatures :=
                                AList.update sender signature (csSignatures candidate1)\<rparr>;
                candidate3 = candidate2\<lparr>csHasStrongQuorum :=
                                IsStrongQuorum (csPower candidate2) (ScaledTotal (powerTable q))\<rparr>
            in Inr (q\<lparr>chainSupport := AList.update key candidate3 (chainSupport q)\<rparr>)))"

definition quorumState_Receive ::
  "quorumState \<Rightarrow> ActorID \<Rightarrow> ECChain \<Rightarrow> bytes option \<Rightarrow> panic + quorumState" where
  "quorumState_Receive q sender val signature =
     andThen (receiveSender q sender) (\<lambda>(q1, senderPower, ok).
       if \<not> ok then Inr q1 else receiveInner q1 sender val senderPower signature)"

fun ReceiveEachPrefix_loop ::
  "quorumState \<Rightarrow> ActorID \<Rightarrow> ECChain \<Rightarrow> int \<Rightarrow> nat list \<Rightarrow> panic + quorumState" where
  "ReceiveEachPrefix_loop q sender vals senderPower [] = Inr q"
| "ReceiveEachPrefix_loop q sender vals senderPower (j # js) =
     (let prefix = Prefix vals (j + 1)
      in andThen (receiveInner q sender prefix senderPower None) (\<lambda>q1.
           ReceiveEachPrefix_loop q1 sender vals senderPower js))"

definition ReceiveEachPrefix :: "quorumState \<Rightarrow> ActorID \<Rightarrow> ECChain \<Rightarrow> panic + quorumState" where
  "ReceiveEachPrefix q sender vals =
     andThen (receiveSender q sender) (\<lambda>(q1, senderPower, ok).
       if \<not> ok then Inr q1
       else ReceiveEachPrefix_loop q1 sender vals senderPower [0 ..< length (Suffix vals)])"

definition ReceiveJustification ::
  "quorumState \<Rightarrow> ECChain \<Rightarrow> Justification option \<Rightarrow> panic + quorumState" where
  "ReceiveJustification q val justification =
     (case justification of
        None \<Rightarrow> Inl PanicNilJustification
      | Some j \<Rightarrow>
          (let key = ECChain_Key val
           in if map_of (receivedJustification q) key = None
              then Inr (q\<lparr>receivedJustification := AList.update key j (receivedJustification q)\<rparr>)
              else Inr q))"

definition ListAllValues :: "quorumState \<Rightarrow> ECChain list" where
  "ListAllValues q = map (\<lambda>(k, cp). csChain cp) (chainSupport q)"

definition ReceivedFromStrongQuorum :: "quorumState \<Rightarrow> bool" where
  "ReceivedFromStrongQuorum q = IsStrongQuorum (sendersTotalPower q) (ScaledTotal (powerTable q))"

definition ReceivedFromWeakQuorum :: "quorumState \<Rightarrow> bool" where
  "ReceivedFromWeakQuorum q = hasWeakQuorum (sendersTotalPower q) (ScaledTotal (powerTable q))"

definition HasStrongQuorumFor :: "quorumState \<Rightarrow> ChainKey \<Rightarrow> bool" where
  "HasStrongQuorumFor q key =
     (case map_of (chainSupport q) key of
        Some supportForChain \<Rightarrow> csHasStrongQuorum supportForChain
      | None \<Rightarrow> False)"

definition GetJustificationOf :: "quorumState \<Rightarrow> Phase \<Rightarrow> ChainKey \<Rightarrow> Justification option" where
  "GetJustificationOf q phase key =
     (if Key_IsZero key
      then find (\<lambda>j. IsZero (Value (jVote j)) \<and> Phase (jVote j) = phase)
             (map snd (receivedJustification q))
      else (case map_of (receivedJustification q) key of
              Some j \<Rightarrow> if Phase (jVote j) = phase then Some j else None
            | None \<Rightarrow> None))"

definition HasJustificationOf :: "quorumState \<Rightarrow> Phase \<Rightarrow> ChainKey \<Rightarrow> bool" where
  "HasJustificationOf q phase key \<longleftrightarrow> GetJustificationOf q phase key \<noteq> None"

definition CouldReachStrongQuorumFor :: "quorumState \<Rightarrow> ChainKey \<Rightarrow> bool \<Rightarrow> bool" where
  "CouldReachStrongQuorumFor q key withAdversary =
     (let supportingPower = (case map_of (chainSupport q) key of
                               Some supportForChain \<Rightarrow> csPower supportForChain
                             | None \<Rightarrow> 0);
          unvotedPower = sub64 (ScaledTotal (powerTable q)) (sendersTotalPower q);
          adversaryPower = (if withAdversary then quo64 (ScaledTotal (powerTable q)) 3 else 0);
          possibleSupport = min (add64 (add64 supportingPower unvotedPower) adversaryPower)
                                (ScaledTotal (powerTable q))
      in IsStrongQuorum possibleSupport (ScaledTotal (powerTable q)))"

record QuorumResult =
  Signers :: "nat list"
  Signatures :: "bytes option list"

fun lookupSigners :: "PowerTable \<Rightarrow> ActorID list \<Rightarrow> nat list \<Rightarrow> panic + nat list" where
  "lookupSigners pt [] signers = Inr signers"
| "lookupSigners pt (aid # ids) signers =
     (case Lookup pt aid of
        None \<Rightarrow> Inl (PanicSignerNotFound aid)
      | Some entryIndex \<Rightarrow> lookupSigners pt ids (signers @ [entryIndex]))"

fun accumulateQuorum ::
  "PowerTable \<Rightarrow> chainSupport \<Rightarrow> nat list \<Rightarrow> nat \<Rightarrow> nat list \<Rightarrow> int \<Rightarrow> bytes option list
   \<Rightarrow> panic + (QuorumResult \<times> bool)" where
  "accumulateQuorum pt cs signers i [] justificationPower signatures =
     Inl PanicStrongQuorumNotFound"
| "accumulateQuorum pt cs signers i (idx # rest) justificationPower signatures =
     (if idx \<ge> length (Entries pt)
      then Inl (PanicInvalidSignerIndex idx (length (Entries pt)))
      else if idx \<ge> length (ScaledPower pt) then Inl PanicIndexOutOfRange
      else
        (let pow = ScaledPower pt ! idx;
             entry = Entries pt ! idx;
             justificationPower1 = add64 justificationPower pow;
             signatures1 = signatures @ [signatureOf (csSignatures cs) (ID entry)]
         in if IsStrongQuorum justificationPower1 (ScaledTotal pt)
            then Inr (\<lparr>Signers = take (i + 1) signers, Signatures = signatures1\<rparr>, True)
            else accumulateQuorum pt cs signers (i + 1) rest justificationPower1 signatures1))"

definition FindStrongQuorumFor :: "quorumState \<Rightarrow> ChainKey \<Rightarrow> panic + (QuorumResult \<times> bool)" where
  "FindStrongQuorumFor q key =
     (case map_of (chainSupport q) key of
        None \<Rightarrow> Inr (\<lparr>Signers = [], Signatures = []\<rparr>, False)
      | Some cs \<Rightarrow>
          if \<not> csHasStrongQuorum cs then Inr (\<lparr>Signers = [], Signatures = []\<rparr>, False)
          else
            andThen (lookupSigners (powerTable q) (map fst (csSignatures cs)) []) (\<lambda>signers0.
              (let signers = sort signers0
               in accumulateQuorum (powerTable q) cs signers 0 signers 0 [])))"

fun longestPrefix_loop :: "quorumState \<Rightarrow> ECChain \<Rightarrow> nat list \<Rightarrow> ECChain" where
  "longestPrefix_loop q preferred [] = BaseChain preferred"
| "longestPrefix_loop q preferred (i # is) =
     (let longestPrefix = Prefix preferred i
      in if HasStrongQuorumFor q (ECChain_Key longestPrefix) then longestPrefix
         else longestPrefix_loop q preferred is)"

definition FindStrongQuorumValueForLongestPrefixOf :: "quorumState \<Rightarrow> ECChain \<Rightarrow> ECChain" where
  "FindStrongQuorumValueForLongestPrefixOf q preferred =
     (if HasStrongQuorumFor q (ECChain_Key preferred) then preferred
      else longestPrefix_loop q preferred (rev [0 ..< length preferred]))"

fun FindStrongQuorumValue_loop ::
  "quorumState \<Rightarrow> (ChainKey \<times> chainSupport) list \<Rightarrow> ECChain \<Rightarrow> bool \<Rightarrow> panic + (ECChain \<times> bool)" where
  "FindStrongQuorumValue_loop q [] quorumValue foundQuorum = Inr (quorumValue, foundQuorum)"
| "FindStrongQuorumValue_loop q ((key, cp) # rest) quorumValue foundQuorum =
     (if csHasStrongQuorum cp
      then if foundQuorum then Inl PanicMultipleStrongQuorum
           else FindStrongQuorumValue_loop q rest
                  (case map_of (chainSupport q) key of Some c \<Rightarrow> csChain c | None \<Rightarrow> []) True
      else FindStrongQuorumValue_loop q rest quorumValue foundQuorum)"

definition FindStrongQuorumValue :: "quorumState \<Rightarrow> panic + (ECChain \<times> bool)" where
  "FindStrongQuorumValue q = FindStrongQuorumValue_loop q (chainSupport q) [] False"



section \<open>Converge state (gpbft.go, convergeState)\<close>

text \<open>
  A rank is a \<^verbatim>\<open>float64\<close>: a finite value or \<open>+Inf\<close>, the rank of the self value.
  \<^verbatim>\<open>ComputeTicketRank\<close> is defined outside the files at hand and is a parameter of the
  functions that call it.
\<close>

datatype rank = Finite real | PosInf

fun rank_less :: "rank \<Rightarrow> rank \<Rightarrow> bool" where
  "rank_less (Finite a) (Finite b) = (a < b)"
| "rank_less (Finite a) PosInf = True"
| "rank_less PosInf _ = False"

record ConvergeValue =
  cvChain :: ECChain
  cvJustification :: "Justification option"
  cvRank :: rank

record convergeState =
  cSenders :: "ActorID set"
  cValues :: "(ChainKey \<times> ConvergeValue) list"
  cSendersTotalPower :: int

definition ConvergeValue_IsValid :: "ConvergeValue \<Rightarrow> bool" where
  "ConvergeValue_IsValid cv \<longleftrightarrow> \<not> IsZero (cvChain cv) \<and> cvJustification cv \<noteq> None"

definition IsOtherBetter :: "ConvergeValue \<Rightarrow> ConvergeValue \<Rightarrow> bool" where
  "IsOtherBetter cv other \<longleftrightarrow> \<not> ConvergeValue_IsValid cv \<or> rank_less (cvRank other) (cvRank cv)"

definition newConvergeState :: convergeState where
  "newConvergeState = \<lparr>cSenders = {}, cValues = [], cSendersTotalPower = 0\<rparr>"

definition SetSelfValue :: "convergeState \<Rightarrow> ECChain \<Rightarrow> Justification option \<Rightarrow> convergeState" where
  "SetSelfValue c val justification =
     (let key = ECChain_Key val
      in if map_of (cValues c) key = None
         then c\<lparr>cValues := AList.update key
                  \<lparr>cvChain = val, cvJustification = justification, cvRank = PosInf\<rparr> (cValues c)\<rparr>
         else c)"

definition convergeState_Receive ::
  "(bytes \<Rightarrow> int \<Rightarrow> rank) \<Rightarrow> convergeState \<Rightarrow> ActorID \<Rightarrow> PowerTable \<Rightarrow> ECChain \<Rightarrow> bytes
   \<Rightarrow> Justification option \<Rightarrow> panic + (error option \<times> convergeState)" where
  "convergeState_Receive ComputeTicketRank c sender table val ticket justification =
     (if IsZero val then Inr (Some ErrBottomConverge, c)
      else if justification = None then Inr (Some ErrNilJustificationConverge, c)
      else if sender \<in> cSenders c then Inr (None, c)
      else
        andThen (PowerTable_Get table sender) (\<lambda>senderPower.
          (let c1 = c\<lparr>cSenders := insert sender (cSenders c),
                      cSendersTotalPower := add64 (cSendersTotalPower c) senderPower\<rparr>;
               key = ECChain_Key val
           in case map_of (cValues c1) key of
                None \<Rightarrow>
                  Inr (None, c1\<lparr>cValues := AList.update key
                         \<lparr>cvChain = val, cvJustification = justification,
                          cvRank = ComputeTicketRank ticket senderPower\<rparr> (cValues c1)\<rparr>)
              | Some v \<Rightarrow>
                  (let rnk = ComputeTicketRank ticket senderPower
                   in if rank_less rnk (cvRank v)
                      then Inr (None, c1\<lparr>cValues := AList.update key (v\<lparr>cvRank := rnk\<rparr>) (cValues c1)\<rparr>)
                      else Inr (None, c1)))))"

definition zeroConvergeValue :: ConvergeValue where
  "zeroConvergeValue = \<lparr>cvChain = [], cvJustification = None, cvRank = Finite 0\<rparr>"

fun FindBestTicketProposal_loop ::
  "(ConvergeValue \<Rightarrow> panic + bool) option \<Rightarrow> ConvergeValue list \<Rightarrow> ConvergeValue
   \<Rightarrow> panic + ConvergeValue" where
  "FindBestTicketProposal_loop flt [] bestValue = Inr bestValue"
| "FindBestTicketProposal_loop flt (v # rest) bestValue =
     (if IsOtherBetter bestValue v
      then (case flt of
              None \<Rightarrow> FindBestTicketProposal_loop flt rest v
            | Some f \<Rightarrow>
                andThen (f v) (\<lambda>ok.
                  FindBestTicketProposal_loop flt rest (if ok then v else bestValue)))
      else FindBestTicketProposal_loop flt rest bestValue)"

definition FindBestTicketProposal ::
  "convergeState \<Rightarrow> (ConvergeValue \<Rightarrow> panic + bool) option \<Rightarrow> panic + ConvergeValue" where
  "FindBestTicketProposal c flt =
     FindBestTicketProposal_loop flt (map snd (cValues c)) zeroConvergeValue"

definition FindProposalFor :: "convergeState \<Rightarrow> ECChain \<Rightarrow> ConvergeValue" where
  "FindProposalFor c ch =
     (case find (\<lambda>v. Eq (cvChain v) ch) (map snd (cValues c)) of
        Some v \<Rightarrow> v
      | None \<Rightarrow> zeroConvergeValue)"

fun converge_bottomJustification ::
  "Phase \<Rightarrow> ConvergeValue list \<Rightarrow> panic + Justification option" where
  "converge_bottomJustification phase [] = Inr None"
| "converge_bottomJustification phase (v # rest) =
     (case cvJustification v of
        None \<Rightarrow> Inl PanicNilDereference
      | Some j \<Rightarrow>
          if IsZero (Value (jVote j)) \<and> Phase (jVote j) = phase then Inr (Some j)
          else converge_bottomJustification phase rest)"

definition convergeState_GetJustificationOf ::
  "convergeState \<Rightarrow> Phase \<Rightarrow> ChainKey \<Rightarrow> panic + Justification option" where
  "convergeState_GetJustificationOf c phase key =
     (if Key_IsZero key then converge_bottomJustification phase (map snd (cValues c))
      else (case map_of (cValues c) key of
              None \<Rightarrow> Inr None
            | Some v \<Rightarrow>
                (case cvJustification v of
                   None \<Rightarrow> Inl PanicNilDereference
                 | Some j \<Rightarrow> if Phase (jVote j) = phase then Inr (Some j) else Inr None)))"

definition convergeState_HasJustificationOf ::
  "convergeState \<Rightarrow> Phase \<Rightarrow> ChainKey \<Rightarrow> panic + bool" where
  "convergeState_HasJustificationOf c phase key =
     andThen (convergeState_GetJustificationOf c phase key) (\<lambda>j. Inr (j \<noteq> None))"

section \<open>Instance state (gpbft.go, instance)\<close>

text \<open>
  The host and the participant's settings, as far as the instance reads them.  Calls
  into the host (\<^verbatim>\<open>SetAlarm\<close>, \<^verbatim>\<open>RequestBroadcast\<close>, \<^verbatim>\<open>RequestRebroadcast\<close>) and to the
  progress observer are appended to \<open>effects\<close> in the order they are made; the errors of
  the two broadcast requests are only logged by the instance and are not modelled, nor
  are logging and metrics.  \<open>hostTime\<close> is what \<^verbatim>\<open>host.Time()\<close> returns; times are integers,
  the zero \<^verbatim>\<open>time.Time\<close> being 0, and durations are \<^verbatim>\<open>int64\<close>.  The phase delay
  \<^verbatim>\<open>time.Duration(float64(delta) * multi * math.Pow(deltaBackOffExponent, float64(round)))\<close>
  is a floating-point product and is the parameter \<open>synchronyDelta multi round\<close>.
  \<^verbatim>\<open>ComputeTicketRank\<close> and the aggregate verifier are parameters as well.
\<close>

record InstanceProgress =
  ipID :: nat
  ipRound :: nat
  ipPhase :: Phase
  ipInput :: ECChain

record Instant =
  inID :: nat
  inRound :: nat
  inPhase :: Phase

record MessageBuilder =
  mbPowerTable :: PowerTable
  mbPayload :: Payload
  mbJustification :: "Justification option"
  mbBeaconForTicket :: "bytes option"

datatype effect =
    EvNotifyProgress InstanceProgress
  | EvSetAlarm int
  | EvRequestBroadcast MessageBuilder
  | EvRequestRebroadcast Instant

record Participant =
  maxLookaheadRounds :: nat
  rebroadcastImmediatelyAfterRound :: nat
  rebroadcastAfter :: "nat \<Rightarrow> int"
  qualityDeltaMulti :: real
  synchronyDelta :: "real \<Rightarrow> nat \<Rightarrow> int"
  computeTicketRank :: "bytes \<Rightarrow> int \<Rightarrow> rank"
  hostTime :: int
  effects :: "effect list"

record roundState =
  converged :: convergeState
  prepared :: quorumState
  committed :: quorumState

record gpbftInstance =
  participant :: Participant
  input :: ECChain
  instPowerTable :: PowerTable
  aggregateVerifier :: "nat list \<Rightarrow> bytes option list \<Rightarrow> bytes option"
  beacon :: bytes
  current :: InstanceProgress
  phaseTimeout :: int
  rebroadcastTimeout :: int
  rebroadcastAttempts :: nat
  supplementalData :: SupplementalData
  proposal :: ECChain
  instValue :: ECChain
  candidates :: "ChainKey set"
  terminationValue :: "Justification option"
  quality :: quorumState
  rounds :: "nat \<rightharpoonup> roundState"
  decision :: quorumState

definition newRoundState :: "nat \<Rightarrow> PowerTable \<Rightarrow> roundState" where
  "newRoundState roundNumber pt =
     \<lparr>converged = newConvergeState, prepared = newQuorumState pt, committed = newQuorumState pt\<rparr>"

definition newInstance ::
  "Participant \<Rightarrow> nat \<Rightarrow> ECChain \<Rightarrow> SupplementalData \<Rightarrow> PowerTable
   \<Rightarrow> (nat list \<Rightarrow> bytes option list \<Rightarrow> bytes option) \<Rightarrow> bytes \<Rightarrow> error + gpbftInstance" where
  "newInstance p instanceID inp data pt aggVerifier bcn =
     (if IsZero inp then Inl ErrInputEmpty
      else Inr \<lparr>participant = p,
                input = inp,
                instPowerTable = pt,
                aggregateVerifier = aggVerifier,
                beacon = bcn,
                current = \<lparr>ipID = instanceID, ipRound = 0, ipPhase = INITIAL_PHASE, ipInput = inp\<rparr>,
                phaseTimeout = 0,
                rebroadcastTimeout = 0,
                rebroadcastAttempts = 0,
                supplementalData = data,
                proposal = inp,
                instValue = [],
                candidates = {ECChain_Key (BaseChain inp)},
                terminationValue = None,
                quality = newQuorumState pt,
                rounds = [0 \<mapsto> newRoundState 0 pt],
                decision = newQuorumState pt\<rparr>)"

subsection \<open>Host calls and small helpers\<close>

definition emit :: "effect \<Rightarrow> gpbftInstance \<Rightarrow> gpbftInstance" where
  "emit e i = i\<lparr>participant := (participant i)\<lparr>effects := effects (participant i) @ [e]\<rparr>\<rparr>"

definition NotifyProgress :: "gpbftInstance \<Rightarrow> gpbftInstance" where
  "NotifyProgress i = emit (EvNotifyProgress (current i)) i"

definition SetAlarm :: "gpbftInstance \<Rightarrow> int \<Rightarrow> gpbftInstance" where
  "SetAlarm i t = emit (EvSetAlarm t) i"

definition setPhase :: "gpbftInstance \<Rightarrow> Phase \<Rightarrow> gpbftInstance" where
  "setPhase i ph = i\<lparr>current := (current i)\<lparr>ipPhase := ph\<rparr>\<rparr>"

definition setRound :: "gpbftInstance \<Rightarrow> nat \<Rightarrow> gpbftInstance" where
  "setRound i r = i\<lparr>current := (current i)\<lparr>ipRound := r\<rparr>\<rparr>"

definition getRound :: "gpbftInstance \<Rightarrow> nat \<Rightarrow> roundState \<times> gpbftInstance" where
  "getRound i r =
     (case rounds i r of
        Some rnd \<Rightarrow> (rnd, i)
      | None \<Rightarrow>
          (let rnd = newRoundState r (instPowerTable i)
           in (rnd, i\<lparr>rounds := (rounds i)(r \<mapsto> rnd)\<rparr>)))"

text \<open>
  A round state is reached through a pointer in the code; storing through the pointer is
  storing the changed round state back under its number.
\<close>

definition putRound :: "gpbftInstance \<Rightarrow> nat \<Rightarrow> roundState \<Rightarrow> gpbftInstance" where
  "putRound i r rnd = i\<lparr>rounds := (rounds i)(r \<mapsto> rnd)\<rparr>"

definition atOrAfter :: "int \<Rightarrow> int \<Rightarrow> bool" where
  "atOrAfter lhs rhs \<longleftrightarrow> lhs > rhs \<or> lhs = rhs"

definition isSpammable :: "GMessage \<Rightarrow> bool" where
  "isSpammable msg \<longleftrightarrow> Justification msg = None \<and> Round (Vote msg) > 0"

definition terminated :: "gpbftInstance \<Rightarrow> bool" where
  "terminated i \<longleftrightarrow> ipPhase (current i) = TERMINATED_PHASE"

definition isCandidate :: "gpbftInstance \<Rightarrow> ECChain \<Rightarrow> bool" where
  "isCandidate i c \<longleftrightarrow> ECChain_Key c \<in> candidates i"

definition addCandidate :: "gpbftInstance \<Rightarrow> ECChain \<Rightarrow> gpbftInstance \<times> bool" where
  "addCandidate i c =
     (let key = ECChain_Key c
      in if key \<notin> candidates i then (i\<lparr>candidates := insert key (candidates i)\<rparr>, True)
         else (i, False))"

fun addCandidatePrefixes_loop ::
  "gpbftInstance \<Rightarrow> ECChain \<Rightarrow> nat list \<Rightarrow> bool \<Rightarrow> gpbftInstance \<times> bool" where
  "addCandidatePrefixes_loop i c [] addedAny = (i, addedAny)"
| "addCandidatePrefixes_loop i c (l # ls) addedAny =
     (if addedAny then (i, addedAny)
      else (let (i1, added) = addCandidate i (Prefix c l)
            in addCandidatePrefixes_loop i1 c ls added))"

definition addCandidatePrefixes :: "gpbftInstance \<Rightarrow> ECChain \<Rightarrow> gpbftInstance \<times> bool" where
  "addCandidatePrefixes i c = addCandidatePrefixes_loop i c (rev [1 ..< length c]) False"

definition resetRebroadcastParams :: "gpbftInstance \<Rightarrow> gpbftInstance" where
  "resetRebroadcastParams i = i\<lparr>rebroadcastAttempts := 0, rebroadcastTimeout := 0\<rparr>"

definition phaseTimeoutElapsed :: "gpbftInstance \<Rightarrow> bool" where
  "phaseTimeoutElapsed i = atOrAfter (hostTime (participant i)) (phaseTimeout i)"

definition rebroadcastTimeoutElapsed :: "gpbftInstance \<Rightarrow> bool" where
  "rebroadcastTimeoutElapsed i =
     (let now = hostTime (participant i) in atOrAfter now (rebroadcastTimeout i))"

definition shouldRebroadcast :: "gpbftInstance \<Rightarrow> bool" where
  "shouldRebroadcast i \<longleftrightarrow>
     phaseTimeoutElapsed i
     \<or> ipRound (current i) > rebroadcastImmediatelyAfterRound (participant i)"

definition broadcast ::
  "gpbftInstance \<Rightarrow> nat \<Rightarrow> Phase \<Rightarrow> ECChain \<Rightarrow> bool \<Rightarrow> Justification option \<Rightarrow> gpbftInstance" where
  "broadcast i rnd phase val createTicket justification =
     (let p = \<lparr>Instance = ipID (current i), Round = rnd, Phase = phase,
               SupplementalData = supplementalData i, Value = val\<rparr>;
          mb = \<lparr>mbPowerTable = instPowerTable i, mbPayload = p,
                mbJustification = justification,
                mbBeaconForTicket = (if createTicket then Some (beacon i) else None)\<rparr>
      in emit (EvRequestBroadcast mb) i)"

definition alarmAfterSynchronyWithMulti :: "gpbftInstance \<Rightarrow> real \<Rightarrow> int \<times> gpbftInstance" where
  "alarmAfterSynchronyWithMulti i multi =
     (let delta = synchronyDelta (participant i) multi (ipRound (current i));
          timeout = hostTime (participant i) + mul64 2 delta
      in (timeout, SetAlarm i timeout))"

definition alarmAfterSynchrony :: "gpbftInstance \<Rightarrow> int \<times> gpbftInstance" where
  "alarmAfterSynchrony i = alarmAfterSynchronyWithMulti i 1"

definition rebroadcastQuietly :: "gpbftInstance \<Rightarrow> nat \<Rightarrow> Phase \<Rightarrow> gpbftInstance" where
  "rebroadcastQuietly i rnd phase =
     (let instant = \<lparr>inID = ipID (current i), inRound = rnd, inPhase = phase\<rparr>
      in emit (EvRequestRebroadcast instant) i)"

definition rebroadcast :: "gpbftInstance \<Rightarrow> gpbftInstance" where
  "rebroadcast i =
     (if ipPhase (current i) \<in> {QUALITY_PHASE, CONVERGE_PHASE, PREPARE_PHASE, COMMIT_PHASE}
      then
        (let i1 = rebroadcastQuietly i 0 QUALITY_PHASE;
             i2 = rebroadcastQuietly i1 (ipRound (current i1)) COMMIT_PHASE;
             i3 = rebroadcastQuietly i2 (ipRound (current i2)) PREPARE_PHASE;
             i4 = rebroadcastQuietly i3 (ipRound (current i3)) CONVERGE_PHASE
         in if ipRound (current i4) > 0
            then
              (let i5 = rebroadcastQuietly i4 (sub_u64 (ipRound (current i4)) 1) COMMIT_PHASE;
                   i6 = rebroadcastQuietly i5 (sub_u64 (ipRound (current i5)) 1) PREPARE_PHASE
               in rebroadcastQuietly i6 (sub_u64 (ipRound (current i6)) 1) CONVERGE_PHASE)
            else i4)
      else if ipPhase (current i) = DECIDE_PHASE then rebroadcastQuietly i 0 DECIDE_PHASE
      else i)"

definition tryRebroadcast :: "gpbftInstance \<Rightarrow> gpbftInstance" where
  "tryRebroadcast i =
     (if rebroadcastAttempts i = 0 \<and> rebroadcastTimeout i = 0
      then
        (let rebroadcastTimeoutOffset =
               (if ipPhase (current i) = DECIDE_PHASE
                   \<or> ipRound (current i) > rebroadcastImmediatelyAfterRound (participant i)
                then hostTime (participant i)
                else phaseTimeout i);
             i1 = i\<lparr>rebroadcastTimeout :=
                      rebroadcastTimeoutOffset + rebroadcastAfter (participant i) 0\<rparr>
         in if phaseTimeoutElapsed i1 then SetAlarm i1 (rebroadcastTimeout i1)
            else if rebroadcastTimeout i1 < phaseTimeout i1 then SetAlarm i1 (rebroadcastTimeout i1)
            else resetRebroadcastParams i1)
      else if rebroadcastTimeoutElapsed i
      then
        (let i1 = rebroadcast i;
             i2 = i1\<lparr>rebroadcastAttempts := rebroadcastAttempts i1 + 1\<rparr>;
             i3 = i2\<lparr>rebroadcastTimeout :=
                       hostTime (participant i2)
                       + rebroadcastAfter (participant i2) (rebroadcastAttempts i2)\<rparr>
         in if phaseTimeoutElapsed i3 then SetAlarm i3 (rebroadcastTimeout i3)
            else if rebroadcastTimeout i3 < phaseTimeout i3 then SetAlarm i3 (rebroadcastTimeout i3)
            else SetAlarm i3 (phaseTimeout i3))
      else i)"

definition buildJustification ::
  "gpbftInstance \<Rightarrow> QuorumResult \<Rightarrow> nat \<Rightarrow> Phase \<Rightarrow> ECChain \<Rightarrow> panic + Justification" where
  "buildJustification i quorum rnd phase val =
     (case aggregateVerifier i (Signers quorum) (Signatures quorum) of
        None \<Rightarrow> Inl PanicAggregate
      | Some aggSignature \<Rightarrow>
          Inr \<lparr>jVote = \<lparr>Instance = ipID (current i), Round = rnd, Phase = phase,
                         SupplementalData = supplementalData i, Value = val\<rparr>,
               jSigners = Signers quorum,
               jSignature = aggSignature\<rparr>)"

subsection \<open>Phase transitions\<close>

definition beginQuality :: "gpbftInstance \<Rightarrow> error option \<times> gpbftInstance" where
  "beginQuality i =
     (if ipPhase (current i) \<noteq> INITIAL_PHASE then (Some ErrCannotTransition, i)
      else
        (let i1 = setPhase i QUALITY_PHASE;
             i2 = NotifyProgress i1;
             (timeout, i3) = alarmAfterSynchronyWithMulti i2 (qualityDeltaMulti (participant i2));
             i4 = i3\<lparr>phaseTimeout := timeout\<rparr>;
             i5 = resetRebroadcastParams i4;
             i6 = broadcast i5 (ipRound (current i5)) QUALITY_PHASE (proposal i5) False None
         in (None, i6)))"

definition Start :: "gpbftInstance \<Rightarrow> error option \<times> gpbftInstance" where
  "Start i = beginQuality i"

definition beginPrepare :: "gpbftInstance \<Rightarrow> Justification option \<Rightarrow> gpbftInstance" where
  "beginPrepare i justification =
     (let i1 = setPhase i PREPARE_PHASE;
          i2 = NotifyProgress i1;
          (timeout, i3) = alarmAfterSynchrony i2;
          i4 = i3\<lparr>phaseTimeout := timeout\<rparr>;
          i5 = resetRebroadcastParams i4
      in broadcast i5 (ipRound (current i5)) PREPARE_PHASE (instValue i5) False justification)"

definition tryQuality :: "gpbftInstance \<Rightarrow> error option \<times> gpbftInstance" where
  "tryQuality i =
     (if ipPhase (current i) \<noteq> QUALITY_PHASE then (Some ErrUnexpectedPhase, i)
      else
        (let foundQuorum = HasStrongQuorumFor (quality i) (ECChain_Key (proposal i));
             timeoutExpired = phaseTimeoutElapsed i
         in if foundQuorum \<or> timeoutExpired
            then
              (let i1 = i\<lparr>proposal :=
                            FindStrongQuorumValueForLongestPrefixOf (quality i) (input i)\<rparr>;
                   (i2, added) = addCandidatePrefixes i1 (proposal i1);
                   i3 = i2\<lparr>instValue := proposal i2\<rparr>
               in (None, beginPrepare i3 None))
            else (None, i)))"

definition updateCandidatesFromQuality :: "gpbftInstance \<Rightarrow> error option \<times> gpbftInstance" where
  "updateCandidatesFromQuality i =
     (let longestPrefix = FindStrongQuorumValueForLongestPrefixOf (quality i) (input i);
          (i1, added) = addCandidatePrefixes i longestPrefix
      in (None, i1))"

definition beginConverge :: "gpbftInstance \<Rightarrow> Justification option \<Rightarrow> panic + gpbftInstance" where
  "beginConverge i justification =
     (case justification of
        None \<Rightarrow> Inl PanicNilDereference
      | Some j \<Rightarrow>
          if Round (jVote j) \<noteq> sub_u64 (ipRound (current i)) 1 then Inl PanicConvergeWrongRound
          else
            (let i1 = setPhase i CONVERGE_PHASE;
                 i2 = NotifyProgress i1;
                 (timeout, i3) = alarmAfterSynchrony i2;
                 i4 = i3\<lparr>phaseTimeout := timeout\<rparr>;
                 i5 = resetRebroadcastParams i4;
                 (rnd, i6) = getRound i5 (ipRound (current i5));
                 i7 = putRound i6 (ipRound (current i5))
                        (rnd\<lparr>converged := SetSelfValue (converged rnd) (proposal i6) justification\<rparr>)
             in Inr (broadcast i7 (ipRound (current i7)) CONVERGE_PHASE (proposal i7) True
                       justification)))"

definition isValidConvergeValue ::
  "gpbftInstance \<Rightarrow> quorumState \<Rightarrow> ConvergeValue \<Rightarrow> panic + bool" where
  "isValidConvergeValue i commitRoundState cv =
     (if isCandidate i (cvChain cv) then Inr True
      else (case cvJustification cv of
              None \<Rightarrow> Inl PanicNilDereference
            | Some j \<Rightarrow>
                if Phase (jVote j) \<noteq> PREPARE_PHASE then Inr False
                else Inr (CouldReachStrongQuorumFor commitRoundState
                            (ECChain_Key (cvChain cv)) True)))"

definition tryConverge :: "gpbftInstance \<Rightarrow> panic + (error option \<times> gpbftInstance)" where
  "tryConverge i =
     (if ipPhase (current i) \<noteq> CONVERGE_PHASE then Inr (Some ErrUnexpectedPhase, i)
      else
        (let timeoutExpired = phaseTimeoutElapsed i
         in if \<not> timeoutExpired
            then Inr (None, if shouldRebroadcast i then tryRebroadcast i else i)
            else
              (let (prevRound, i1) = getRound i (sub_u64 (ipRound (current i)) 1);
                   commitRoundState = committed prevRound;
                   (curRound, i2) = getRound i1 (ipRound (current i1))
               in andThen (FindBestTicketProposal (converged curRound)
                             (Some (isValidConvergeValue i2 commitRoundState))) (\<lambda>winner.
                    if \<not> ConvergeValue_IsValid winner then Inr (Some ErrNoValuesAtConverge, i2)
                    else
                      (let i3 = (if \<not> isCandidate i2 (cvChain winner)
                                 then fst (addCandidate i2 (cvChain winner)) else i2);
                           i4 = i3\<lparr>proposal := cvChain winner\<rparr>;
                           i5 = i4\<lparr>instValue := cvChain winner\<rparr>
                       in Inr (None, beginPrepare i5 (cvJustification winner)))))))"

definition beginCommit :: "gpbftInstance \<Rightarrow> panic + gpbftInstance" where
  "beginCommit i =
     (let i1 = setPhase i COMMIT_PHASE;
          i2 = NotifyProgress i1;
          (timeout, i3) = alarmAfterSynchrony i2;
          i4 = i3\<lparr>phaseTimeout := timeout\<rparr>;
          i5 = resetRebroadcastParams i4
      in if \<not> IsZero (instValue i5)
         then
           (let valueKey = ECChain_Key (instValue i5);
                (currentRound, i6) = getRound i5 (ipRound (current i5));
                (nextRound, i7) = getRound i6 (add_u64 (ipRound (current i6)) 1)
            in andThen (FindStrongQuorumFor (prepared currentRound) valueKey) (\<lambda>(quorum, ok).
                 andThen
                   (if ok
                    then andThen (buildJustification i7 quorum (ipRound (current i7)) PREPARE_PHASE
                                    (instValue i7)) (\<lambda>j. Inr (Some j))
                    else (case GetJustificationOf (committed currentRound) PREPARE_PHASE valueKey of
                            Some justifiedByCommit \<Rightarrow> Inr (Some justifiedByCommit)
                          | None \<Rightarrow>
                              (case GetJustificationOf (prepared nextRound) PREPARE_PHASE valueKey of
                                 Some justifiedByNextPrepare \<Rightarrow> Inr (Some justifiedByNextPrepare)
                               | None \<Rightarrow>
                                   andThen (convergeState_GetJustificationOf (converged nextRound)
                                              PREPARE_PHASE valueKey) (\<lambda>justifiedByNextConverge.
                                     if justifiedByNextConverge \<noteq> None
                                     then Inr justifiedByNextConverge
                                     else Inl PanicCommitNoQuorum))))
                   (\<lambda>justification.
                      Inr (broadcast i7 (ipRound (current i7)) COMMIT_PHASE (instValue i7) False
                             justification))))
         else Inr (broadcast i5 (ipRound (current i5)) COMMIT_PHASE (instValue i5) False None))"

definition tryPrepare :: "gpbftInstance \<Rightarrow> panic + (error option \<times> gpbftInstance)" where
  "tryPrepare i =
     (if ipPhase (current i) \<noteq> PREPARE_PHASE then Inr (Some ErrUnexpectedPhase, i)
      else
        (let (currentRound, i1) = getRound i (ipRound (current i));
             prep = prepared currentRound;
             proposalKey = ECChain_Key (proposal i1);
             foundQuorum = HasStrongQuorumFor prep proposalKey;
             quorumNotPossible = (\<not> CouldReachStrongQuorumFor prep proposalKey False);
             phaseComplete = (phaseTimeoutElapsed i1 \<and> ReceivedFromStrongQuorum prep);
             (nextRound, i2) = getRound i1 (add_u64 (ipRound (current i1)) 1)
         in andThen
              (if HasJustificationOf (committed currentRound) PREPARE_PHASE proposalKey then Inr True
               else if HasJustificationOf (prepared nextRound) PREPARE_PHASE proposalKey then Inr True
               else convergeState_HasJustificationOf (converged nextRound) PREPARE_PHASE proposalKey)
              (\<lambda>foundJustification.
                 (let i3 = (if foundQuorum \<or> foundJustification then i2\<lparr>instValue := proposal i2\<rparr>
                            else if quorumNotPossible \<or> phaseComplete then i2\<lparr>instValue := []\<rparr>
                            else i2)
                  in if foundQuorum \<or> foundJustification \<or> quorumNotPossible \<or> phaseComplete
                     then andThen (beginCommit i3) (\<lambda>i4. Inr (None, i4))
                     else if shouldRebroadcast i3 then Inr (None, tryRebroadcast i3)
                     else Inr (None, i3)))))"

definition beginDecide :: "gpbftInstance \<Rightarrow> nat \<Rightarrow> panic + gpbftInstance" where
  "beginDecide i rnd =
     (let i1 = setPhase i DECIDE_PHASE;
          i2 = NotifyProgress i1;
          i3 = resetRebroadcastParams i2;
          (roundSt, i4) = getRound i3 rnd
      in andThen (FindStrongQuorumFor (committed roundSt) (ECChain_Key (instValue i4)))
           (\<lambda>(quorum, ok).
              if ok
              then andThen (buildJustification i4 quorum rnd COMMIT_PHASE (instValue i4))
                     (\<lambda>justification.
                        Inr (broadcast i4 0 DECIDE_PHASE (instValue i4) False (Some justification)))
              else Inl PanicDecideNoQuorum))"

definition skipToDecide ::
  "gpbftInstance \<Rightarrow> ECChain \<Rightarrow> Justification option \<Rightarrow> gpbftInstance" where
  "skipToDecide i val justification =
     (let i1 = setPhase i DECIDE_PHASE;
          i2 = NotifyProgress i1;
          i3 = i2\<lparr>proposal := val\<rparr>;
          i4 = i3\<lparr>instValue := proposal i3\<rparr>;
          i5 = resetRebroadcastParams i4
      in broadcast i5 0 DECIDE_PHASE (instValue i5) False justification)"

definition terminate :: "gpbftInstance \<Rightarrow> Justification \<Rightarrow> gpbftInstance" where
  "terminate i dec =
     (let i1 = setPhase i TERMINATED_PHASE;
          i2 = NotifyProgress i1;
          i3 = i2\<lparr>instValue := Value (jVote dec)\<rparr>;
          i4 = i3\<lparr>terminationValue := Some dec\<rparr>
      in resetRebroadcastParams i4)"

definition tryDecide :: "gpbftInstance \<Rightarrow> panic + (error option \<times> gpbftInstance)" where
  "tryDecide i =
     andThen (FindStrongQuorumValue (decision i)) (\<lambda>(quorumValue, ok).
       if ok
       then andThen (FindStrongQuorumFor (decision i) (ECChain_Key quorumValue)) (\<lambda>(quorum, ok1).
              if ok1
              then andThen (buildJustification i quorum 0 DECIDE_PHASE quorumValue) (\<lambda>dec.
                     Inr (None, terminate i dec))
              else Inl PanicTryDecideNoQuorum)
       else Inr (None, tryRebroadcast i))"

definition beginNextRound :: "gpbftInstance \<Rightarrow> panic + gpbftInstance" where
  "beginNextRound i =
     (let i1 = setRound i (add_u64 (ipRound (current i)) 1);
          (currentRound, i2) = getRound i1 (ipRound (current i1));
          (previousRound, i3) = getRound i2 (sub_u64 (ipRound (current i2)) 1);
          bottomKey = ECChain_Key []
      in andThen (FindStrongQuorumFor (committed previousRound) bottomKey) (\<lambda>(quorum, ok).
           andThen
             (if ok
              then andThen (buildJustification i3 quorum (sub_u64 (ipRound (current i3)) 1)
                              COMMIT_PHASE []) (\<lambda>j. Inr (Some j))
              else (case GetJustificationOf (prepared currentRound) COMMIT_PHASE bottomKey of
                      Some bottomJustifiedByPrepare \<Rightarrow> Inr (Some bottomJustifiedByPrepare)
                    | None \<Rightarrow>
                        andThen (convergeState_GetJustificationOf (converged currentRound)
                                   COMMIT_PHASE bottomKey) (\<lambda>bottomJustifiedByConverge.
                          if bottomJustifiedByConverge \<noteq> None then Inr bottomJustifiedByConverge
                          else (case map_of (receivedJustification (committed previousRound))
                                       (ECChain_Key (proposal i3)) of
                                  Some j \<Rightarrow> Inr (Some j)
                                | None \<Rightarrow> Inl PanicNoJustificationForProposal))))
             (\<lambda>justification. beginConverge i3 justification)))"

definition skipToRound ::
  "gpbftInstance \<Rightarrow> nat \<Rightarrow> ECChain \<Rightarrow> Justification option \<Rightarrow> panic + gpbftInstance" where
  "skipToRound i rnd ch justification =
     (let i1 = setRound i rnd
      in case justification of
           None \<Rightarrow> Inl PanicNilDereference
         | Some j \<Rightarrow>
             (let i2 = (if Phase (jVote j) = PREPARE_PHASE
                        then (fst (addCandidate i1 ch))\<lparr>proposal := ch\<rparr>
                        else i1)
              in beginConverge i2 justification))"

fun firstNonZero :: "ECChain list \<Rightarrow> ECChain option" where
  "firstNonZero [] = None"
| "firstNonZero (v # vs) = (if \<not> IsZero v then Some v else firstNonZero vs)"

definition tryCommit :: "gpbftInstance \<Rightarrow> nat \<Rightarrow> panic + (error option \<times> gpbftInstance)" where
  "tryCommit i rnd =
     (let (roundSt, i1) = getRound i rnd;
          comm = committed roundSt
      in andThen (FindStrongQuorumValue comm) (\<lambda>(quorumValue, foundStrongQuorum).
           (let phaseComplete = (phaseTimeoutElapsed i1 \<and> ReceivedFromStrongQuorum comm);
                (nextRound, i2) = getRound i1 (add_u64 rnd 1);
                bottomKey = ECChain_Key []
            in andThen
                 (if HasJustificationOf (prepared nextRound) COMMIT_PHASE bottomKey then Inr True
                  else convergeState_HasJustificationOf (converged nextRound) COMMIT_PHASE bottomKey)
                 (\<lambda>foundJustificationForBottom.
                    if foundStrongQuorum \<and> \<not> IsZero quorumValue
                    then andThen (beginDecide (i2\<lparr>instValue := quorumValue\<rparr>) rnd)
                           (\<lambda>i3. Inr (None, i3))
                    else if ipRound (current i2) \<noteq> rnd \<or> ipPhase (current i2) \<noteq> COMMIT_PHASE
                    then Inr (None, i2)
                    else if foundStrongQuorum \<or> foundJustificationForBottom
                    then andThen (beginNextRound i2) (\<lambda>i3. Inr (None, i3))
                    else if phaseComplete
                    then
                      (let i3 = (case firstNonZero (ListAllValues comm) of
                                   None \<Rightarrow> i2
                                 | Some v \<Rightarrow>
                                     (let i2a = (if \<not> isCandidate i2 v then fst (addCandidate i2 v)
                                                 else i2)
                                      in if \<not> Eq v (proposal i2a) then i2a\<lparr>proposal := v\<rparr>
                                         else i2a))
                       in andThen (beginNextRound i3) (\<lambda>i4. Inr (None, i4)))
                    else if shouldRebroadcast i2 then Inr (None, tryRebroadcast i2)
                    else Inr (None, i2)))))"

definition tryCurrentPhase :: "gpbftInstance \<Rightarrow> panic + (error option \<times> gpbftInstance)" where
  "tryCurrentPhase i =
     (case ipPhase (current i) of
        QUALITY_PHASE \<Rightarrow> Inr (tryQuality i)
      | CONVERGE_PHASE \<Rightarrow> tryConverge i
      | PREPARE_PHASE \<Rightarrow> tryPrepare i
      | COMMIT_PHASE \<Rightarrow> tryCommit i (ipRound (current i))
      | DECIDE_PHASE \<Rightarrow> tryDecide i
      | TERMINATED_PHASE \<Rightarrow> Inr (None, i)
      | INITIAL_PHASE \<Rightarrow> Inr (Some ErrUnexpectedPhase, i))"

subsection \<open>Receiving messages and alarms\<close>

definition shouldSkipToRound ::
  "gpbftInstance \<Rightarrow> nat \<Rightarrow> panic + ((ECChain \<times> Justification option \<times> bool) \<times> gpbftInstance)" where
  "shouldSkipToRound i rnd =
     (let (state, i1) = getRound i rnd
      in if rnd \<le> ipRound (current i1) \<or> ipPhase (current i1) = DECIDE_PHASE
         then Inr (([], None, False), i1)
         else if \<not> ReceivedFromWeakQuorum (prepared state) then Inr (([], None, False), i1)
         else andThen (FindBestTicketProposal (converged state) None) (\<lambda>prop.
                if \<not> ConvergeValue_IsValid prop then Inr (([], None, False), i1)
                else Inr ((cvChain prop, cvJustification prop, True), i1)))"

fun postReceive_loop :: "gpbftInstance \<Rightarrow> nat list \<Rightarrow> panic + gpbftInstance" where
  "postReceive_loop i [] = Inr i"
| "postReceive_loop i (r # rs) =
     andThen (shouldSkipToRound i r) (\<lambda>((ch, justification, skip), i1).
       if skip then skipToRound i1 r ch justification
       else postReceive_loop i1 rs)"

definition postReceive :: "gpbftInstance \<Rightarrow> nat list \<Rightarrow> panic + gpbftInstance" where
  "postReceive i roundsReceived = postReceive_loop i (rev roundsReceived)"

definition receiveOne ::
  "gpbftInstance \<Rightarrow> GMessage \<Rightarrow> panic + ((bool \<times> error option) \<times> gpbftInstance)" where
  "receiveOne i msg =
     (if Instance (Vote msg) \<noteq> ipID (current i) then Inr ((False, Some ErrReceivedWrongInstance), i)
      else if SupplementalData (Vote msg) \<noteq> supplementalData i
      then Inr ((False, Some ErrValidationWrongSupplement), i)
      else if \<not> (IsZero (Value (Vote msg)) \<or> HasBase (Value (Vote msg)) (Base (input i)))
      then Inr ((False, Some ErrValidationWrongBase), i)
      else if ipPhase (current i) = TERMINATED_PHASE then Inr ((False, None), i)
      else
        (let forPriorRound = (Round (Vote msg) < ipRound (current i))
         in if (forPriorRound \<and> Phase (Vote msg) = CONVERGE_PHASE)
               \<or> (forPriorRound \<and> Phase (Vote msg) = PREPARE_PHASE)
            then Inr ((False, None), i)
            else
              (let beyondMaxLookaheadRounds =
                     (Round (Vote msg)
                        > add_u64 (ipRound (current i)) (maxLookaheadRounds (participant i)))
               in if beyondMaxLookaheadRounds \<and> isSpammable msg then Inr ((False, None), i)
                  else
                    (let (msgRound, i1) = getRound i (Round (Vote msg));
                         r = Round (Vote msg);
                         tryPhase = (\<lambda>i2. andThen (tryCurrentPhase i2)
                                              (\<lambda>(err, i3). Inr ((True, err), i3)))
                     in case Phase (Vote msg) of
                          QUALITY_PHASE \<Rightarrow>
                            andThen (ReceiveEachPrefix (quality i1) (Sender msg) (Value (Vote msg)))
                              (\<lambda>q. (let i2 = i1\<lparr>quality := q\<rparr>
                                    in if ipPhase (current i2) \<noteq> QUALITY_PHASE
                                       then (let (err, i3) = updateCandidatesFromQuality i2
                                             in Inr ((True, err), i3))
                                       else tryPhase i2))
                        | CONVERGE_PHASE \<Rightarrow>
                            andThen (convergeState_Receive (computeTicketRank (participant i1))
                                       (converged msgRound) (Sender msg) (instPowerTable i1)
                                       (Value (Vote msg)) (Ticket msg) (Justification msg))
                              (\<lambda>(err, c).
                                 (let i2 = putRound i1 r (msgRound\<lparr>converged := c\<rparr>)
                                  in case err of
                                       Some e \<Rightarrow> Inr ((False, Some (ErrFailedConverge e)), i2)
                                     | None \<Rightarrow> tryPhase i2))
                        | PREPARE_PHASE \<Rightarrow>
                            andThen (quorumState_Receive (prepared msgRound) (Sender msg)
                                       (Value (Vote msg)) (Signature msg))
                              (\<lambda>q. andThen
                                      (if Justification msg \<noteq> None
                                       then ReceiveJustification q (Value (Vote msg)) (Justification msg)
                                       else Inr q)
                                      (\<lambda>q1. tryPhase (putRound i1 r (msgRound\<lparr>prepared := q1\<rparr>))))
                        | COMMIT_PHASE \<Rightarrow>
                            andThen (quorumState_Receive (committed msgRound) (Sender msg)
                                       (Value (Vote msg)) (Signature msg))
                              (\<lambda>q. andThen
                                      (if \<not> IsZero (Value (Vote msg))
                                       then ReceiveJustification q (Value (Vote msg)) (Justification msg)
                                       else Inr q)
                                      (\<lambda>q1.
                                         (let i2 = putRound i1 r (msgRound\<lparr>committed := q1\<rparr>)
                                          in if ipPhase (current i2) \<noteq> DECIDE_PHASE
                                             then andThen (tryCommit i2 r) (\<lambda>(err, i3).
                                                    (let tryToCompleteCurrentPhase =
                                                           (err = None
                                                            \<and> ipPhase (current i3) = PREPARE_PHASE
                                                            \<and> ipRound (current i3) = r
                                                            \<and> \<not> IsZero (Value (Vote msg)))
                                                     in if \<not> tryToCompleteCurrentPhase
                                                        then Inr ((True, err), i3)
                                                        else tryPhase i3))
                                             else tryPhase i2)))
                        | DECIDE_PHASE \<Rightarrow>
                            andThen (quorumState_Receive (decision i1) (Sender msg)
                                       (Value (Vote msg)) (Signature msg))
                              (\<lambda>q. (let i2 = i1\<lparr>decision := q\<rparr>;
                                        i3 = (if ipPhase (current i2) \<noteq> DECIDE_PHASE
                                              then skipToDecide i2 (Value (Vote msg)) (Justification msg)
                                              else i2)
                                    in tryPhase i3))
                        | INITIAL_PHASE \<Rightarrow> Inr ((False, Some ErrUnexpectedMessagePhase), i1)
                        | TERMINATED_PHASE \<Rightarrow> Inr ((False, Some ErrUnexpectedMessagePhase), i1)))))"

definition Receive :: "gpbftInstance \<Rightarrow> GMessage \<Rightarrow> panic + (error option \<times> gpbftInstance)" where
  "Receive i msg =
     (if terminated i then Inr (Some ErrReceivedAfterTermination, i)
      else andThen (receiveOne i msg) (\<lambda>((stateChanged, err), i1).
             if err \<noteq> None then Inr (err, i1)
             else if stateChanged
             then andThen (postReceive i1 [Round (Vote msg)]) (\<lambda>i2. Inr (None, i2))
             else Inr (None, i1)))"

text \<open>
  Modelled from the spec: the error values and the type \<^verbatim>\<open>ValidationError\<close> are declared
  outside the files at hand.  The specification's error taxonomy lists
  "ValidationError (WrongInstance, WrongSupplement, WrongBase): message rejected at
  ingress; in batch mode, logged and the batch continues".
\<close>

fun isValidationError :: "error option \<Rightarrow> bool" where
  "isValidationError (Some ErrReceivedWrongInstance) = True"
| "isValidationError (Some ErrValidationWrongSupplement) = True"
| "isValidationError (Some ErrValidationWrongBase) = True"
| "isValidationError _ = False"

fun ReceiveMany_loop ::
  "gpbftInstance \<Rightarrow> GMessage list \<Rightarrow> nat list
   \<Rightarrow> panic + (error option \<times> nat list \<times> gpbftInstance)" where
  "ReceiveMany_loop i [] roundsReceived = Inr (None, roundsReceived, i)"
| "ReceiveMany_loop i (msg # msgs) roundsReceived =
     andThen (receiveOne i msg) (\<lambda>((stateChanged, err), i1).
       if err \<noteq> None \<and> \<not> isValidationError err then Inr (err, roundsReceived, i1)
       else ReceiveMany_loop i1 msgs
              (if stateChanged then List.insert (Round (Vote msg)) roundsReceived
               else roundsReceived))"

definition ReceiveMany ::
  "gpbftInstance \<Rightarrow> GMessage list \<Rightarrow> panic + (error option \<times> gpbftInstance)" where
  "ReceiveMany i msgs =
     (if terminated i then Inr (Some ErrReceivedAfterTermination, i)
      else andThen (ReceiveMany_loop i msgs []) (\<lambda>(err, roundsReceived, i1).
             if err \<noteq> None then Inr (err, i1)
             else andThen (postReceive i1 (sort roundsReceived)) (\<lambda>i2. Inr (None, i2))))"

definition ReceiveAlarm :: "gpbftInstance \<Rightarrow> panic + (error option \<times> gpbftInstance)" where
  "ReceiveAlarm i =
     andThen (tryCurrentPhase i) (\<lambda>(err, i1).
       case err of
         Some e \<Rightarrow> Inr (Some (ErrFailedPhase e), i1)
       | None \<Rightarrow> Inr (None, i1))"

text \<open>
  The states an instance can be in: it is created, started, handed messages and alarms,
  and the host's clock moves forward in between.
\<close>

definition advanceClock :: "gpbftInstance \<Rightarrow> int \<Rightarrow> gpbftInstance" where
  "advanceClock i t = i\<lparr>participant := (participant i)\<lparr>hostTime := t\<rparr>\<rparr>"

inductive reachable :: "gpbftInstance \<Rightarrow> bool" where
  created: "newInstance p instanceID inp data pt aggVerifier bcn = Inr i \<Longrightarrow> reachable i"
| started: "reachable i \<Longrightarrow> Start i = (err, i') \<Longrightarrow> reachable i'"
| received: "reachable i \<Longrightarrow> Receive i msg = Inr (err, i') \<Longrightarrow> reachable i'"
| receivedMany: "reachable i \<Longrightarrow> ReceiveMany i msgs = Inr (err, i') \<Longrightarrow> reachable i'"
| alarmed: "reachable i \<Longrightarrow> ReceiveAlarm i = Inr (err, i') \<Longrightarrow> reachable i'"
| clock: "reachable i \<Longrightarrow> hostTime (participant i) \<le> t \<Longrightarrow> reachable (advanceClock i t)"

section \<open>Message codec (internal/encoding/encoding.go)\<close>

text \<open>
  The codecs are generic in the message type: \<^verbatim>\<open>MarshalCBOR\<close> and \<^verbatim>\<open>UnmarshalCBOR\<close> are
  methods of the type parameter and are parameters here, \<open>Inl\<close> being their error.  The
  zstd library is a parameter as well: \<open>compress\<close> is \<^verbatim>\<open>EncodeAll\<close>, \<open>decompress\<close> is what a
  frame decompresses to (\<open>None\<close> for a malformed frame).  The decoder is built
  \<^verbatim>\<open>WithDecoderMaxMemory(maxDecompressedSize)\<close> and \<^verbatim>\<open>WithDecodeAllCapLimit(true)\<close> and is
  handed a buffer of that capacity, so \<^verbatim>\<open>DecodeAll\<close> fails on a frame that decompresses to
  more.  A Go result \<^verbatim>\<open>([]byte, error)\<close> is a pair; \<^verbatim>\<open>Decode\<close>, which fills the message it
  is handed, returns the message.
\<close>

definition maxDecompressedSize :: nat where
  "maxDecompressedSize = 2 ^ 20"

definition CBOR_Encode :: "('m \<Rightarrow> error + bytes) \<Rightarrow> 'm \<Rightarrow> bytes \<times> error option" where
  "CBOR_Encode marshal m =
     (case marshal m of
        Inl err \<Rightarrow> ([], Some err)
      | Inr out \<Rightarrow> (out, None))"

definition CBOR_Decode :: "(bytes \<Rightarrow> error + 'm) \<Rightarrow> bytes \<Rightarrow> error + 'm" where
  "CBOR_Decode unmarshal v = unmarshal v"

definition DecodeAll :: "(bytes \<Rightarrow> bytes option) \<Rightarrow> bytes \<Rightarrow> error + bytes" where
  "DecodeAll decompress v =
     (case decompress v of
        None \<Rightarrow> Inl ErrDecompress
      | Some out \<Rightarrow> if length out > maxDecompressedSize then Inl ErrDecompress else Inr out)"

definition ZSTD_Encode ::
  "('m \<Rightarrow> error + bytes) \<Rightarrow> (bytes \<Rightarrow> bytes) \<Rightarrow> 'm \<Rightarrow> bytes \<times> error option" where
  "ZSTD_Encode marshal compress m =
     (let (cborEncoded, err) = CBOR_Encode marshal m
      in if length cborEncoded > maxDecompressedSize
         then ([], Some (ErrEncodedTooLarge (length cborEncoded)))
         else if err \<noteq> None then ([], err)
         else (compress cborEncoded, None))"

definition ZSTD_Decode ::
  "(bytes \<Rightarrow> error + 'm) \<Rightarrow> (bytes \<Rightarrow> bytes option) \<Rightarrow> bytes \<Rightarrow> error + 'm" where
  "ZSTD_Decode unmarshal decompress v =
     (case DecodeAll decompress v of
        Inl err \<Rightarrow> Inl err
      | Inr cborEncoded \<Rightarrow> CBOR_Decode unmarshal cborEncoded)"

section \<open>Notions used in the statements about the quorum accumulator\<close>

text \<open>
  The actors recorded for a chain are the keys of its signature map.  \<open>powerOf\<close> is the
  power \<^verbatim>\<open>receiveSender\<close> credits to a sender.  \<open>quorum_inv\<close> collects what every
  accumulator built by the receive operations satisfies: each recorded signer is a
  recorded sender and occurs once, no chain key occurs twice, the power of an entry is the 64-bit sum of its
  signers' powers, and the strong-quorum flag is the one computed from that power.
\<close>

definition signersOf :: "chainSupport \<Rightarrow> ActorID list" where
  "signersOf cs = map fst (csSignatures cs)"

definition powerOf :: "PowerTable \<Rightarrow> ActorID \<Rightarrow> int" where
  "powerOf pt sender = (case PowerTable_Get pt sender of Inr p \<Rightarrow> p | Inl e \<Rightarrow> 0)"

definition support_inv :: "quorumState \<Rightarrow> chainSupport \<Rightarrow> bool" where
  "support_inv q cs \<longleftrightarrow>
     distinct (signersOf cs)
     \<and> set (signersOf cs) \<subseteq> senders q
     \<and> csPower cs = wrap64 (sum_list (map (powerOf (powerTable q)) (signersOf cs)))
     \<and> csHasStrongQuorum cs = IsStrongQuorum (csPower cs) (ScaledTotal (powerTable q))"

definition quorum_inv :: "quorumState \<Rightarrow> bool" where
  "quorum_inv q \<longleftrightarrow>
     distinct (map fst (chainSupport q))
     \<and> (\<forall>(k, cs) \<in> set (chainSupport q). support_inv q cs)"

text \<open>
  The entry of a chain after one more sender has been recorded for it: what
  \<^verbatim>\<open>receiveInner\<close> stores, starting from the present entry or from a fresh one.
\<close>

definition supportOrFresh :: "quorumState \<Rightarrow> ECChain \<Rightarrow> chainSupport" where
  "supportOrFresh q val =
     (case map_of (chainSupport q) (ECChain_Key val) of
        Some c \<Rightarrow> c
      | None \<Rightarrow> \<lparr>csChain = val, csPower = 0, csSignatures = [], csHasStrongQuorum = False\<rparr>)"

definition recorded :: "PowerTable \<Rightarrow> chainSupport \<Rightarrow> ActorID \<Rightarrow> int \<Rightarrow> bytes option \<Rightarrow> chainSupport" where
  "recorded pt cs sender pow signature =
     cs\<lparr>csPower := add64 (csPower cs) pow,
        csSignatures := AList.update sender signature (csSignatures cs),
        csHasStrongQuorum := IsStrongQuorum (add64 (csPower cs) pow) (ScaledTotal pt)\<rparr>"

text \<open>The chains \<^verbatim>\<open>ReceiveEachPrefix\<close> visits: the base followed by a non-empty prefix of the suffix.\<close>

definition suffixPrefixes :: "ECChain \<Rightarrow> ECChain list" where
  "suffixPrefixes c = map (\<lambda>n. take n c) [2 ..< Suc (length c)]"






section \<open>Example data\<close>

text \<open>
  Three participants of equal power, scaled to a total of \<open>0xffff\<close>, and chains over
  tipsets with one-byte keys.  A strong quorum of this table is any two participants.
\<close>

definition exTipSet :: "int \<Rightarrow> nat \<Rightarrow> TipSet" where
  "exTipSet e k = \<lparr>Epoch = e, Key = [k], PowerTable = [1], Commitments = replicate 32 0\<rparr>"

definition exChain2 :: ECChain where
  "exChain2 = [exTipSet 0 10, exTipSet 1 11]"

definition exChain3 :: ECChain where
  "exChain3 = [exTipSet 0 10, exTipSet 1 11, exTipSet 2 12]"

definition exTable :: PowerTable where
  "exTable =
     \<lparr>Entries = [\<lparr>ID = 1, Power = 10, PubKey = [1]\<rparr>, \<lparr>ID = 2, Power = 10, PubKey = [2]\<rparr>,
                 \<lparr>ID = 3, Power = 10, PubKey = [3]\<rparr>],
      ScaledPower = [21845, 21845, 21845],
      Lookup = [1 \<mapsto> 0, 2 \<mapsto> 1, 3 \<mapsto> 2],
      Total = 30,
      ScaledTotal = 65535\<rparr>"



text \<open>
  An instance whose power table has the single participant 1, so that each of its votes
  is a strong quorum, with a host whose clock stands at 100 and whose phase delay is
  3000; and the messages participant 1 sends for a chain.
\<close>

definition exTable1 :: PowerTable where
  "exTable1 =
     \<lparr>Entries = [\<lparr>ID = 1, Power = 10, PubKey = [1]\<rparr>],
      ScaledPower = [65535],
      Lookup = [1 \<mapsto> 0],
      Total = 10,
      ScaledTotal = 65535\<rparr>"

definition exParticipant :: Participant where
  "exParticipant =
     \<lparr>maxLookaheadRounds = 5, rebroadcastImmediatelyAfterRound = 3,
      rebroadcastAfter = (\<lambda>n. 1000), qualityDeltaMulti = 1,
      synchronyDelta = (\<lambda>multi rnd. 3000), computeTicketRank = (\<lambda>ticket pow. Finite 1),
      hostTime = 100, effects = []\<rparr>"

definition exSupplement :: SupplementalData where
  "exSupplement = \<lparr>sdCommitments = [], sdPowerTable = [1]\<rparr>"

definition exAggregate :: "nat list \<Rightarrow> bytes option list \<Rightarrow> bytes option" where
  "exAggregate signers sigs = Some [length signers]"

definition exVote :: "Phase \<Rightarrow> ECChain \<Rightarrow> Payload" where
  "exVote ph v =
     \<lparr>Instance = 0, Round = 0, Phase = ph, SupplementalData = exSupplement, Value = v\<rparr>"

definition exJustification :: "Phase \<Rightarrow> ECChain \<Rightarrow> Justification" where
  "exJustification ph v = \<lparr>jVote = exVote ph v, jSigners = [0], jSignature = [1]\<rparr>"

definition exMessage :: "Phase \<Rightarrow> ECChain \<Rightarrow> Justification option \<Rightarrow> GMessage" where
  "exMessage ph v j =
     \<lparr>Sender = 1, Vote = exVote ph v, Signature = Some [1], Ticket = [], Justification = j\<rparr>"

definition exInstance :: "ECChain \<Rightarrow> gpbftInstance" where
  "exInstance inp =
     \<lparr>participant = exParticipant,
      input = inp,
      instPowerTable = exTable1,
      aggregateVerifier = exAggregate,
      beacon = [],
      current = \<lparr>ipID = 0, ipRound = 0, ipPhase = INITIAL_PHASE, ipInput = inp\<rparr>,
      phaseTimeout = 0,
      rebroadcastTimeout = 0,
      rebroadcastAttempts = 0,
      supplementalData = exSupplement,
      proposal = inp,
      instValue = [],
      candidates = {ECChain_Key (BaseChain inp)},
      terminationValue = None,
      quality = newQuorumState exTable1,
      rounds = [0 \<mapsto> newRoundState 0 exTable1],
      decision = newQuorumState exTable1\<rparr>"

definition exStarted :: "ECChain \<Rightarrow> gpbftInstance" where
  "exStarted inp = snd (Start (exInstance inp))"

text \<open>Delivering messages one after the other, the errors returned being dropped.\<close>

fun deliver :: "gpbftInstance \<Rightarrow> GMessage list \<Rightarrow> panic + gpbftInstance" where
  "deliver i [] = Inr i"
| "deliver i (msg # msgs) = andThen (Receive i msg) (\<lambda>(err, i1). deliver i1 msgs)"

section \<open>Properties of the quorum arithmetic\<close>

lemma ceil_div_spec_ceiling:
  "ceil_div_spec a b = \<lceil>real_of_int a / real_of_int b\<rceil>"
proof -
  have "\<lceil>real_of_int a / real_of_int b\<rceil> = - \<lfloor>- (real_of_int a / real_of_int b)\<rfloor>"
    unfolding ceiling_def ..
  also have "- (real_of_int a / real_of_int b) = real_of_int (- a) / real_of_int b"
    by simp
  also have "\<lfloor>real_of_int (- a) / real_of_int b\<rfloor> = (- a) div b"
    by (rule floor_divide_of_int_eq)
  finally show ?thesis by (simp only: ceil_div_spec_def)
qed

lemma wrap64_id: "int64 x \<Longrightarrow> wrap64 x = x"
  by (simp add: int64_def wrap64_def)

lemma int64_wrap64: "int64 (wrap64 x)"
proof -
  have "0 \<le> (x + 2 ^ 63) mod (2 ^ 64 :: int)" by simp
  moreover have "(x + 2 ^ 63) mod (2 ^ 64 :: int) < 2 ^ 64" by simp
  ultimately show ?thesis by (simp add: int64_def wrap64_def)
qed

lemma divCeil_nonneg:
  assumes "0 \<le> a" and "a < 2 ^ 63"
  shows "divCeil a 3 = ceil_div_spec a 3"
proof -
  have q: "a sdiv 3 = a div 3" using assms by (simp add: signed_divide_int_def sgn_if)
  have r: "a smod 3 = a mod 3" using assms by (simp add: signed_modulo_int_def sgn_if)
  have qr: "0 \<le> a div 3" "a div 3 \<le> a" using assms by simp_all
  have w1: "wrap64 (a div 3) = a div 3"
    by (rule wrap64_id) (use qr assms in \<open>simp add: int64_def\<close>)
  have "a div 3 + 1 \<le> a + 1" using qr by simp
  then have w2: "wrap64 (a div 3 + 1) = a div 3 + 1"
    using qr assms by (intro wrap64_id) (simp add: int64_def)
  have c: "ceil_div_spec a 3 = (if a mod 3 \<noteq> 0 then a div 3 + 1 else a div 3)"
    unfolding ceil_div_spec_def by presburger
  show ?thesis
    by (simp add: divCeil_def quo64_def rem64_def add64_def Let_def q r w1 w2 c)
qed

text \<open>
  C1 (as stated, refuted).  The two equivalences fail outside the range of a scaled
  power total: for a negative total the truncating division already rounds up and
  \<^verbatim>\<open>divCeil\<close> adds one more, and for a total of \<open>2 ^ 62\<close> the product \<open>2 * whole\<close>
  wraps around.
\<close>

theorem C1_quorum_all_int64_counterexample:
  "int64 0 \<and> int64 1 \<and> int64 (- 1) \<and> int64 (2 ^ 62)
   \<and> \<not> (IsStrongQuorum 0 (- 1) \<longleftrightarrow> 0 \<ge> ceil_div_spec (2 * (- 1)) 3)
   \<and> \<not> (IsStrongQuorum 0 (2 ^ 62) \<longleftrightarrow> 0 \<ge> ceil_div_spec (2 * 2 ^ 62) 3)
   \<and> \<not> (hasWeakQuorum 1 (- 1) \<longleftrightarrow> 1 > ceil_div_spec (- 1) 3)"
  by (simp add: int64_def IsStrongQuorum_def hasWeakQuorum_def divCeil_def mul64_def
      quo64_def rem64_def add64_def wrap64_def ceil_div_spec_def
      signed_divide_int_def signed_modulo_int_def Let_def)

text \<open>
  C1 (amended).  For every part \<open>p\<close> and every non-negative total \<open>n\<close>,
  \<open>hasWeakQuorum p n\<close> holds exactly when \<open>p > \<lceil>n / 3\<rceil>\<close>; and when moreover
  \<open>n < 2 ^ 62\<close>, so that \<open>2 * n\<close> is an \<^verbatim>\<open>int64\<close>, \<open>IsStrongQuorum p n\<close> holds exactly
  when \<open>p \<ge> \<lceil>2 * n / 3\<rceil>\<close>.
\<close>

theorem C1_quorum_arithmetic:
  "(0 \<le> n \<and> n < 2 ^ 62 \<longrightarrow> (IsStrongQuorum p n \<longleftrightarrow> p \<ge> ceil_div_spec (2 * n) 3))
   \<and> (0 \<le> n \<and> int64 n \<longrightarrow> (hasWeakQuorum p n \<longleftrightarrow> p > ceil_div_spec n 3))"
proof (intro conjI impI)
  assume n: "0 \<le> n \<and> n < 2 ^ 62"
  then have "int64 (2 * n)" by (simp add: int64_def)
  then have "mul64 2 n = 2 * n" by (simp add: mul64_def wrap64_id)
  moreover have "divCeil (2 * n) 3 = ceil_div_spec (2 * n) 3"
    using n by (intro divCeil_nonneg) simp_all
  ultimately show "IsStrongQuorum p n \<longleftrightarrow> p \<ge> ceil_div_spec (2 * n) 3"
    by (simp add: IsStrongQuorum_def)
next
  assume n: "0 \<le> n \<and> int64 n"
  then have "divCeil n 3 = ceil_div_spec n 3"
    by (intro divCeil_nonneg) (simp_all add: int64_def)
  then show "hasWeakQuorum p n \<longleftrightarrow> p > ceil_div_spec n 3"
    by (simp add: hasWeakQuorum_def)
qed

theorem C1_quorum_arithmetic_witness:
  "IsStrongQuorum 7 10 \<and> \<not> IsStrongQuorum 6 10 \<and> hasWeakQuorum 5 10 \<and> \<not> hasWeakQuorum 4 10"
  using C1_quorum_arithmetic [of 10 7] C1_quorum_arithmetic [of 10 6]
    C1_quorum_arithmetic [of 10 5] C1_quorum_arithmetic [of 10 4]
  by (simp add: int64_def ceil_div_spec_def)

section \<open>Chain validation\<close>

lemma Validate_from_None_iff:
  "Validate_from i l c = None \<longleftrightarrow>
     (\<forall>ts \<in> set c. TipSet_Validate (Some ts) = None) \<and> sorted_wrt (<) (l # map Epoch c)"
proof (induction c arbitrary: i l)
  case Nil
  then show ?case by simp
next
  case (Cons ts rest)
  show ?case
  proof (cases "TipSet_Validate (Some ts)")
    case (Some e)
    then show ?thesis by auto
  next
    case None
    show ?thesis
    proof (cases "Epoch ts \<le> l")
      case True
      then show ?thesis using None by auto
    next
      case False
      then have "Validate_from i l (ts # rest) = Validate_from (Suc i) (Epoch ts) rest"
        using None by simp
      then show ?thesis using Cons.IH [of "Suc i" "Epoch ts"] None False by fastforce
    qed
  qed
qed

text \<open>
  C7 (as stated, refuted).  A non-bottom chain of length at most 128 with strictly
  increasing epochs can still be rejected: the first epoch must be non-negative (the
  loop starts from a last epoch of \<open>-1\<close>), and every tipset must itself be valid.
\<close>

theorem C7_validate_counterexample:
  "\<not> IsZero [\<lparr>Epoch = - 1, Key = [1], PowerTable = [1], Commitments = []\<rparr>]
   \<and> length [\<lparr>Epoch = - 1, Key = [1], PowerTable = [1], Commitments = []\<rparr>] \<le> 128
   \<and> sorted_wrt (<) (map Epoch [\<lparr>Epoch = - 1, Key = [1], PowerTable = [1], Commitments = []\<rparr>])
   \<and> ECChain_Validate [\<lparr>Epoch = - 1, Key = [1], PowerTable = [1], Commitments = []\<rparr>]
       = Some (ErrChainEpochs (- 1) (- 1))
   \<and> \<not> IsZero [\<lparr>Epoch = 5, Key = [], PowerTable = [1], Commitments = []\<rparr>]
   \<and> length [\<lparr>Epoch = 5, Key = [], PowerTable = [1], Commitments = []\<rparr>] \<le> 128
   \<and> sorted_wrt (<) (map Epoch [\<lparr>Epoch = 5, Key = [], PowerTable = [1], Commitments = []\<rparr>])
   \<and> ECChain_Validate [\<lparr>Epoch = 5, Key = [], PowerTable = [1], Commitments = []\<rparr>]
       = Some (ErrTipset 0 ErrTipsetKeyEmpty)"
  by (simp add: IsZero_def ECChain_Validate_def ChainMaxLen_def TipSet_Validate_def
      TipsetKeyMaxLen_def CidMaxLen_def)

text \<open>
  C7 (amended).  \<open>ECChain_Validate\<close> succeeds on the bottom chain, and on a non-bottom
  chain it succeeds exactly when the chain has at most 128 tipsets, every tipset passes
  \<open>TipSet_Validate\<close>, the first epoch is non-negative and the epochs are strictly
  increasing.
\<close>

theorem C7_validate:
  "ECChain_Validate [] = None
   \<and> (c \<noteq> [] \<longrightarrow>
        (ECChain_Validate c = None \<longleftrightarrow>
           length c \<le> 128
           \<and> (\<forall>ts \<in> set c. TipSet_Validate (Some ts) = None)
           \<and> 0 \<le> Epoch (hd c)
           \<and> sorted_wrt (<) (map Epoch c)))"
proof (intro conjI impI)
  show "ECChain_Validate [] = None" by (simp add: ECChain_Validate_def IsZero_def)
next
  assume ne: "c \<noteq> []"
  then obtain t r where c: "c = t # r" by (cases c) auto
  have s: "sorted_wrt (<) (- 1 # map Epoch c) \<longleftrightarrow> 0 \<le> Epoch (hd c) \<and> sorted_wrt (<) (map Epoch c)"
    unfolding c by auto
  show "ECChain_Validate c = None \<longleftrightarrow>
           length c \<le> 128
           \<and> (\<forall>ts \<in> set c. TipSet_Validate (Some ts) = None)
           \<and> 0 \<le> Epoch (hd c)
           \<and> sorted_wrt (<) (map Epoch c)"
    using ne s by (auto simp: ECChain_Validate_def IsZero_def ChainMaxLen_def Validate_from_None_iff)
qed

theorem C7_validate_witness:
  "ECChain_Validate [\<lparr>Epoch = 0, Key = [1], PowerTable = [1], Commitments = []\<rparr>,
                     \<lparr>Epoch = 3, Key = [2], PowerTable = [1], Commitments = []\<rparr>] = None
   \<and> ECChain_Validate [\<lparr>Epoch = 3, Key = [1], PowerTable = [1], Commitments = []\<rparr>,
                     \<lparr>Epoch = 3, Key = [2], PowerTable = [1], Commitments = []\<rparr>] \<noteq> None"
  using C7_validate [of "[\<lparr>Epoch = 0, Key = [1], PowerTable = [1], Commitments = []\<rparr>,
                     \<lparr>Epoch = 3, Key = [2], PowerTable = [1], Commitments = []\<rparr>]"]
    C7_validate [of "[\<lparr>Epoch = 3, Key = [1], PowerTable = [1], Commitments = []\<rparr>,
                     \<lparr>Epoch = 3, Key = [2], PowerTable = [1], Commitments = []\<rparr>]"]
  by (simp add: TipSet_Validate_def TipsetKeyMaxLen_def CidMaxLen_def)

section \<open>Feasibility of a strong quorum\<close>


section \<open>Receiving a CONVERGE value\<close>



section \<open>Recording support for the prefixes of a chain\<close>

lemma length_TipSet_keyBytes: "0 < length (TipSet_keyBytes ts)"
  by (simp add: TipSet_keyBytes_def be64_def Let_def)

lemma ECChain_Key_append: "ECChain_Key (xs @ ys) = ECChain_Key xs @ ECChain_Key ys"
  by (induction xs) simp_all

lemma length_ECChain_Key_pos: "xs \<noteq> [] \<Longrightarrow> 0 < length (ECChain_Key xs)"
  using length_TipSet_keyBytes by (cases xs) simp_all

lemma length_Key_take_less:
  assumes "n < m" and "m \<le> length c"
  shows "length (ECChain_Key (take n c)) < length (ECChain_Key (take m c))"
proof -
  have "take m c = take n c @ drop n (take m c)"
    using assms by (metis append_take_drop_id less_imp_le_nat min.absorb1 take_take)
  moreover have "drop n (take m c) \<noteq> []" using assms by simp
  ultimately show ?thesis
    using length_ECChain_Key_pos [of "drop n (take m c)"]
    by (metis ECChain_Key_append length_append less_add_same_cancel1)
qed

lemma Key_take_inj:
  assumes "n \<le> length c" and "m \<le> length c"
    and "ECChain_Key (take n c) = ECChain_Key (take m c)"
  shows "n = m"
proof (rule ccontr)
  assume "n \<noteq> m"
  then consider "n < m" | "m < n" by linarith
  then show False
    using length_Key_take_less [of n m c] length_Key_take_less [of m n c] assms by cases auto
qed

lemma distinct_suffixPrefix_keys: "distinct (map ECChain_Key (suffixPrefixes c))"
proof -
  have "inj_on (\<lambda>n. ECChain_Key (take n c)) (set [2 ..< Suc (length c)])"
  proof (rule inj_onI)
    fix x y
    assume xy: "x \<in> set [2 ..< Suc (length c)]" "y \<in> set [2 ..< Suc (length c)]"
      and k: "ECChain_Key (take x c) = ECChain_Key (take y c)"
    from xy have "x \<le> length c" "y \<le> length c" by auto
    then show "x = y" using k by (rule Key_take_inj)
  qed
  then have "distinct (map (\<lambda>n. ECChain_Key (take n c)) [2 ..< Suc (length c)])"
    by (simp add: distinct_map)
  then show ?thesis by (simp add: suffixPrefixes_def comp_def)
qed

lemma Prefix_loop_list:
  "map (\<lambda>j. Prefix c (j + 1)) [0 ..< length (Suffix c)] = suffixPrefixes c"
proof (cases "c = []")
  case True
  then show ?thesis by (simp add: Suffix_def IsZero_def suffixPrefixes_def)
next
  case False
  have "[2 ..< Suc (length c)] = map (\<lambda>j. j + 2) [0 ..< length c - 1]"
    using False by (intro nth_equalityI) (auto simp: nth_append)
  then show ?thesis
    using False
    by (auto simp: Suffix_def IsZero_def suffixPrefixes_def Prefix_def Let_def comp_def min_def)
qed


lemma receiveInner_eq:
  assumes "signatureOf (csSignatures (supportOrFresh q v)) sender = None"
  shows "receiveInner q sender v p sg =
           Inr (q\<lparr>chainSupport := AList.update (ECChain_Key v)
                  (recorded (powerTable q) (supportOrFresh q v) sender p sg) (chainSupport q)\<rparr>)"
  using assms
  by (simp add: receiveInner_def supportOrFresh_def recorded_def Let_def split: option.splits)

lemma supportOrFresh_update_other:
  "ECChain_Key w \<noteq> k \<Longrightarrow>
     supportOrFresh (q\<lparr>chainSupport := AList.update k e (chainSupport q)\<rparr>) w = supportOrFresh q w"
  by (simp add: supportOrFresh_def update_conv')

lemma ReceiveEachPrefix_loop_effect:
  assumes "distinct (map (\<lambda>j. ECChain_Key (Prefix vals (j + 1))) js)"
    and "\<forall>j \<in> set js. signatureOf (csSignatures (supportOrFresh q (Prefix vals (j + 1)))) sender = None"
  shows "\<exists>al. ReceiveEachPrefix_loop q sender vals p js = Inr (q\<lparr>chainSupport := al\<rparr>)
           \<and> (distinct (map fst (chainSupport q)) \<longrightarrow> distinct (map fst al))
           \<and> (\<forall>j \<in> set js. map_of al (ECChain_Key (Prefix vals (j + 1)))
                  = Some (recorded (powerTable q) (supportOrFresh q (Prefix vals (j + 1))) sender p None))
           \<and> (\<forall>k. k \<notin> (\<lambda>j. ECChain_Key (Prefix vals (j + 1))) ` set js \<longrightarrow>
                  map_of al k = map_of (chainSupport q) k)"
  using assms
proof (induction js arbitrary: q)
  case Nil
  show ?case by (rule exI [of _ "chainSupport q"]) simp
next
  case (Cons j js)
  let ?v = "Prefix vals (j + 1)"
  let ?k = "ECChain_Key ?v"
  let ?e = "recorded (powerTable q) (supportOrFresh q ?v) sender p None"
  let ?q1 = "q\<lparr>chainSupport := AList.update ?k ?e (chainSupport q)\<rparr>"
  have step: "receiveInner q sender ?v p None = Inr ?q1"
    using Cons.prems(2) by (simp add: receiveInner_eq)
  have other: "\<forall>j' \<in> set js. ECChain_Key (Prefix vals (j' + 1)) \<noteq> ?k"
    using Cons.prems(1) by (auto simp: image_iff)
  then have same: "\<forall>j' \<in> set js. supportOrFresh ?q1 (Prefix vals (j' + 1))
                     = supportOrFresh q (Prefix vals (j' + 1))"
    by (simp add: supportOrFresh_update_other)
  have d: "distinct (map (\<lambda>j. ECChain_Key (Prefix vals (j + 1))) js)"
    using Cons.prems(1) by simp
  have s: "\<forall>j' \<in> set js. signatureOf (csSignatures (supportOrFresh ?q1 (Prefix vals (j' + 1)))) sender = None"
    using Cons.prems(2) same by simp
  from Cons.IH [OF d s] obtain al where
    r: "ReceiveEachPrefix_loop ?q1 sender vals p js = Inr (?q1\<lparr>chainSupport := al\<rparr>)"
    and dd: "distinct (map fst (chainSupport ?q1)) \<longrightarrow> distinct (map fst al)"
    and a: "\<forall>j' \<in> set js. map_of al (ECChain_Key (Prefix vals (j' + 1)))
              = Some (recorded (powerTable ?q1) (supportOrFresh ?q1 (Prefix vals (j' + 1))) sender p None)"
    and b: "\<forall>k. k \<notin> (\<lambda>j. ECChain_Key (Prefix vals (j + 1))) ` set js \<longrightarrow>
              map_of al k = map_of (chainSupport ?q1) k"
    by blast
  have kk: "?k \<notin> (\<lambda>j. ECChain_Key (Prefix vals (j + 1))) ` set js"
    using other by auto
  show ?case
  proof (intro exI [of _ al] conjI ballI allI impI)
    show "ReceiveEachPrefix_loop q sender vals p (j # js) = Inr (q\<lparr>chainSupport := al\<rparr>)"
      using step r by (simp add: andThen_def Let_def)
  next
    assume "distinct (map fst (chainSupport q))"
    then show "distinct (map fst al)" using dd by (simp add: distinct_update)
  next
    fix j' assume j': "j' \<in> set (j # js)"
    show "map_of al (ECChain_Key (Prefix vals (j' + 1)))
            = Some (recorded (powerTable q) (supportOrFresh q (Prefix vals (j' + 1))) sender p None)"
    proof (cases "j' \<in> set js")
      case True
      then show ?thesis using a same by simp
    next
      case False
      then have "j' = j" using j' by simp
      then show ?thesis using b kk by (simp add: update_conv')
    qed
  next
    fix k assume "k \<notin> (\<lambda>j. ECChain_Key (Prefix vals (j + 1))) ` set (j # js)"
    then show "map_of al k = map_of (chainSupport q) k"
      using b by (simp add: update_conv')
  qed
qed


lemma wrap64_add_left: "wrap64 (wrap64 a + b) = wrap64 (a + b)"
proof -
  have "(wrap64 a + b + 2 ^ 63) mod 2 ^ 64 = ((a + 2 ^ 63) mod 2 ^ 64 + b) mod 2 ^ 64"
    by (simp add: wrap64_def algebra_simps)
  also have "\<dots> = (a + 2 ^ 63 + b) mod 2 ^ 64"
    by (simp add: mod_add_left_eq)
  finally show ?thesis by (simp add: wrap64_def algebra_simps)
qed

lemma quorum_inv_alt:
  "quorum_inv q \<longleftrightarrow>
     distinct (map fst (chainSupport q))
     \<and> (\<forall>k cs. map_of (chainSupport q) k = Some cs \<longrightarrow> support_inv q cs)"
  unfolding quorum_inv_def
  by (auto dest: map_of_SomeD)

lemma quorum_inv_newQuorumState: "quorum_inv (newQuorumState pt)"
  by (simp add: quorum_inv_def newQuorumState_def)

lemma support_inv_weaken:
  "support_inv q cs \<Longrightarrow> senders q \<subseteq> senders q' \<Longrightarrow> powerTable q' = powerTable q
     \<Longrightarrow> support_inv q' cs"
  by (auto simp: support_inv_def)

lemma supportOrFresh_pre:
  assumes "quorum_inv q"
  shows "distinct (signersOf (supportOrFresh q v))"
    and "set (signersOf (supportOrFresh q v)) \<subseteq> senders q"
    and "csPower (supportOrFresh q v)
           = wrap64 (sum_list (map (powerOf (powerTable q)) (signersOf (supportOrFresh q v))))"
  using assms unfolding quorum_inv_alt
  by (auto simp: supportOrFresh_def support_inv_def signersOf_def wrap64_def split: option.splits)

lemma support_inv_recorded:
  assumes "distinct (signersOf cs)"
    and "set (signersOf cs) \<subseteq> senders q"
    and "csPower cs = wrap64 (sum_list (map (powerOf (powerTable q)) (signersOf cs)))"
    and "sender \<notin> set (signersOf cs)"
    and "sender \<in> senders q'" and "senders q \<subseteq> senders q'"
    and "powerTable q' = powerTable q"
    and "p = powerOf (powerTable q) sender"
  shows "support_inv q' (recorded (powerTable q) cs sender p sg)"
proof -
  have keys: "signersOf (recorded (powerTable q) cs sender p sg) = signersOf cs @ [sender]"
    using assms(4) by (simp add: signersOf_def recorded_def update_keys)
  have pw: "csPower (recorded (powerTable q) cs sender p sg)
              = wrap64 (sum_list (map (powerOf (powerTable q)) (signersOf cs @ [sender])))"
    using assms(3,8) by (simp add: recorded_def add64_def wrap64_add_left)
  have fl: "csHasStrongQuorum (recorded (powerTable q) cs sender p sg)
              = IsStrongQuorum (csPower (recorded (powerTable q) cs sender p sg))
                  (ScaledTotal (powerTable q))"
    by (simp add: recorded_def)
  show ?thesis
    unfolding support_inv_def keys
    using assms(1,2,4,5,6,7) pw fl keys by auto
qed

lemma no_signature_of_new_sender:
  assumes "quorum_inv q" and "sender \<notin> senders q"
  shows "sender \<notin> set (signersOf (supportOrFresh q v))"
    and "signatureOf (csSignatures (supportOrFresh q v)) sender = None"
proof -
  show n: "sender \<notin> set (signersOf (supportOrFresh q v))"
    using supportOrFresh_pre(2) [OF assms(1), of v] assms(2) by auto
  then have "map_of (csSignatures (supportOrFresh q v)) sender = None"
    by (simp add: signersOf_def map_of_eq_None_iff)
  then show "signatureOf (csSignatures (supportOrFresh q v)) sender = None"
    by (simp add: signatureOf_def)
qed

lemma receiveSender_new:
  assumes "sender \<notin> senders q" and "PowerTable_Get (powerTable q) sender = Inr p"
  shows "receiveSender q sender =
           Inr (q\<lparr>senders := insert sender (senders q),
                   sendersTotalPower := add64 (sendersTotalPower q) p\<rparr>, p, True)"
  using assms by (simp add: receiveSender_def andThen_def)

lemma receiveSender_old: "sender \<in> senders q \<Longrightarrow> receiveSender q sender = Inr (q, 0, False)"
  by (simp add: receiveSender_def)

lemma set_suffixPrefixes_loop:
  "(\<lambda>j. ECChain_Key (Prefix c (j + 1))) ` set [0 ..< length (Suffix c)]
     = ECChain_Key ` set (suffixPrefixes c)"
proof -
  have "set (map (\<lambda>j. Prefix c (j + 1)) [0 ..< length (Suffix c)]) = set (suffixPrefixes c)"
    by (simp only: Prefix_loop_list)
  then have "(\<lambda>j. Prefix c (j + 1)) ` set [0 ..< length (Suffix c)] = set (suffixPrefixes c)"
    by simp
  then have "ECChain_Key ` ((\<lambda>j. Prefix c (j + 1)) ` set [0 ..< length (Suffix c)])
               = ECChain_Key ` set (suffixPrefixes c)"
    by simp
  then show ?thesis by (simp add: image_image)
qed

lemma ReceiveEachPrefix_new:
  assumes inv: "quorum_inv q" and new: "sender \<notin> senders q"
    and get: "PowerTable_Get (powerTable q) sender = Inr p"
  shows "\<exists>al. ReceiveEachPrefix q sender c =
                 Inr (q\<lparr>senders := insert sender (senders q),
                        sendersTotalPower := add64 (sendersTotalPower q) p,
                        chainSupport := al\<rparr>)
           \<and> distinct (map fst al)
           \<and> (\<forall>v \<in> set (suffixPrefixes c). map_of al (ECChain_Key v)
                  = Some (recorded (powerTable q) (supportOrFresh q v) sender p None))
           \<and> (\<forall>k. k \<notin> ECChain_Key ` set (suffixPrefixes c) \<longrightarrow>
                  map_of al k = map_of (chainSupport q) k)"
proof -
  let ?q1 = "q\<lparr>senders := insert sender (senders q),
                sendersTotalPower := add64 (sendersTotalPower q) p\<rparr>"
  let ?js = "[0 ..< length (Suffix c)]"
  have sof: "\<And>v. supportOrFresh ?q1 v = supportOrFresh q v"
    by (simp add: supportOrFresh_def)
  have d: "distinct (map (\<lambda>j. ECChain_Key (Prefix c (j + 1))) ?js)"
  proof -
    have "map (\<lambda>j. ECChain_Key (Prefix c (j + 1))) ?js
            = map ECChain_Key (map (\<lambda>j. Prefix c (j + 1)) ?js)"
      by (simp add: comp_def)
    then show ?thesis by (simp only: Prefix_loop_list distinct_suffixPrefix_keys)
  qed
  have s: "\<forall>j \<in> set ?js. signatureOf (csSignatures (supportOrFresh ?q1 (Prefix c (j + 1)))) sender = None"
    using no_signature_of_new_sender(2) [OF inv new] by (simp add: sof)
  from ReceiveEachPrefix_loop_effect [OF d s, of p] obtain al where
    r: "ReceiveEachPrefix_loop ?q1 sender c p ?js = Inr (?q1\<lparr>chainSupport := al\<rparr>)"
    and dd: "distinct (map fst (chainSupport ?q1)) \<longrightarrow> distinct (map fst al)"
    and a: "\<forall>j \<in> set ?js. map_of al (ECChain_Key (Prefix c (j + 1)))
              = Some (recorded (powerTable ?q1) (supportOrFresh ?q1 (Prefix c (j + 1))) sender p None)"
    and b: "\<forall>k. k \<notin> (\<lambda>j. ECChain_Key (Prefix c (j + 1))) ` set ?js \<longrightarrow>
              map_of al k = map_of (chainSupport ?q1) k"
    by blast
  have a': "\<forall>v \<in> set (suffixPrefixes c). map_of al (ECChain_Key v)
              = Some (recorded (powerTable q) (supportOrFresh q v) sender p None)"
  proof
    fix v assume "v \<in> set (suffixPrefixes c)"
    then have "v \<in> set (map (\<lambda>j. Prefix c (j + 1)) ?js)" by (simp only: Prefix_loop_list)
    then obtain j where "j \<in> set ?js" "v = Prefix c (j + 1)" by auto
    then show "map_of al (ECChain_Key v)
              = Some (recorded (powerTable q) (supportOrFresh q v) sender p None)"
      using a by (simp add: sof)
  qed
  show ?thesis
  proof (intro exI [of _ al] conjI)
    show "ReceiveEachPrefix q sender c =
            Inr (q\<lparr>senders := insert sender (senders q),
                   sendersTotalPower := add64 (sendersTotalPower q) p, chainSupport := al\<rparr>)"
      using r by (simp add: ReceiveEachPrefix_def receiveSender_new [OF new get] andThen_def)
    show "distinct (map fst al)" using dd inv by (simp add: quorum_inv_def)
    show "\<forall>v \<in> set (suffixPrefixes c). map_of al (ECChain_Key v)
              = Some (recorded (powerTable q) (supportOrFresh q v) sender p None)"
      by (rule a')
    show "\<forall>k. k \<notin> ECChain_Key ` set (suffixPrefixes c) \<longrightarrow> map_of al k = map_of (chainSupport q) k"
      using b by (simp only: set_suffixPrefixes_loop) simp
  qed
qed


lemma suffixPrefixes_prefix:
  assumes "c \<noteq> []"
  shows "set (suffixPrefixes c) = {hd c # p | p. p \<noteq> [] \<and> prefix p (Suffix c)}"
proof -
  obtain b r where c: "c = b # r" using assms by (cases c) auto
  have "set (suffixPrefixes c) = (\<lambda>n. take n c) ` {2 .. length c}"
    by (auto simp: suffixPrefixes_def)
  also have "\<dots> = {b # p | p. p \<noteq> [] \<and> prefix p r}"
  proof (intro set_eqI iffI)
    fix x assume "x \<in> (\<lambda>n. take n c) ` {2 .. length c}"
    then obtain n where n: "2 \<le> n" "n \<le> length c" "x = take n c" by auto
    then have "x = b # take (n - 1) r" by (cases n) (simp_all add: c)
    moreover have "take (n - 1) r \<noteq> []" using n by (auto simp: c)
    ultimately show "x \<in> {b # p | p. p \<noteq> [] \<and> prefix p r}"
      using take_is_prefix by blast
  next
    fix x assume "x \<in> {b # p | p. p \<noteq> [] \<and> prefix p r}"
    then obtain p where p: "x = b # p" "p \<noteq> []" "prefix p r" by auto
    then have "p = take (length p) r" "length p \<le> length r"
      by (auto simp: prefix_def)
    then have "x = take (Suc (length p)) c" using p by (simp add: c)
    moreover have "2 \<le> Suc (length p)" using p by (cases p) auto
    moreover have "Suc (length p) \<le> length c" using \<open>length p \<le> length r\<close> by (simp add: c)
    ultimately show "x \<in> (\<lambda>n. take n c) ` {2 .. length c}" by auto
  qed
  finally show ?thesis by (simp add: c Suffix_def IsZero_def)
qed

lemma exTable_quorum: "IsStrongQuorum p 65535 \<longleftrightarrow> 43690 \<le> p"
  by (simp add: IsStrongQuorum_def divCeil_def mul64_def quo64_def rem64_def add64_def wrap64_def
      signed_divide_int_def signed_modulo_int_def Let_def)

text \<open>
  C3 (as stated, refuted).  For a chain of a base and one more tipset the suffix has one
  strict prefix, the empty one.  \<open>ReceiveEachPrefix\<close> records nothing under the key of the
  base alone, and it records the sender under the key of the whole chain, whose suffix
  is not a strict prefix of itself.
\<close>

theorem C3_strict_prefix_counterexample:
  "ReceiveEachPrefix (newQuorumState exTable) 1 exChain2 =
     Inr \<lparr>senders = {1}, sendersTotalPower = 21845,
          chainSupport = [(ECChain_Key exChain2,
                           \<lparr>csChain = exChain2, csPower = 21845, csSignatures = [(1, None)],
                            csHasStrongQuorum = False\<rparr>)],
          powerTable = exTable, receivedJustification = []\<rparr>
   \<and> Suffix exChain2 = [exTipSet 1 11]
   \<and> exChain2 = exTipSet 0 10 # [exTipSet 1 11]
   \<and> \<not> strict_prefix [exTipSet 1 11] (Suffix exChain2)
   \<and> strict_prefix [] (Suffix exChain2)
   \<and> ECChain_Key (exTipSet 0 10 # []) \<noteq> ECChain_Key exChain2"
proof -
  have k: "ECChain_Key (exTipSet 0 10 # []) \<noteq> ECChain_Key exChain2"
    using length_Key_take_less [of 1 2 exChain2] by (auto simp: exChain2_def)
  have g: "PowerTable_Get exTable (Suc 0) = Inr 21845"
    by (simp add: PowerTable_Get_def exTable_def)
  have p: "Prefix exChain2 (Suc 0) = exChain2"
    by (simp add: Prefix_def exChain2_def IsZero_def)
  have s: "Suffix exChain2 = [exTipSet 1 11]"
    by (simp add: Suffix_def exChain2_def IsZero_def)
  have t: "ScaledTotal exTable = 65535" by (simp add: exTable_def)
  have r: "ReceiveEachPrefix (newQuorumState exTable) 1 exChain2 =
     Inr \<lparr>senders = {1}, sendersTotalPower = 21845,
          chainSupport = [(ECChain_Key exChain2,
                           \<lparr>csChain = exChain2, csPower = 21845, csSignatures = [(1, None)],
                            csHasStrongQuorum = False\<rparr>)],
          powerTable = exTable, receivedJustification = []\<rparr>"
    by (simp add: ReceiveEachPrefix_def receiveSender_def newQuorumState_def g andThen_def s p
        receiveInner_def signatureOf_def Let_def add64_def wrap64_def t exTable_quorum)
  show ?thesis using k r s by (simp add: exChain2_def)
qed

text \<open>
  C3 (amended).  In an accumulator built by the receive operations, for a sender that is
  not yet recorded and has power \<open>p\<close>, \<open>ReceiveEachPrefix\<close> records the sender and adds
  its power to the total, and it records support from the sender exactly under the keys
  of the chains made of the base followed by a non-empty prefix of the suffix, the whole
  suffix included: the entry of each such chain gets the power added, the sender stored
  with a nil signature and its flag recomputed; every other entry is as before.  For a
  sender that is already recorded nothing changes.
\<close>

theorem C3_receive_each_prefix:
  "(quorum_inv q \<and> sender \<notin> senders q \<and> PowerTable_Get (powerTable q) sender = Inr p \<longrightarrow>
      (\<exists>q'. ReceiveEachPrefix q sender c = Inr q'
         \<and> q' = q\<lparr>senders := insert sender (senders q),
                   sendersTotalPower := add64 (sendersTotalPower q) p,
                   chainSupport := chainSupport q'\<rparr>
         \<and> (\<forall>v \<in> set (suffixPrefixes c). map_of (chainSupport q') (ECChain_Key v)
                = Some (recorded (powerTable q) (supportOrFresh q v) sender p None))
         \<and> (\<forall>k. k \<notin> ECChain_Key ` set (suffixPrefixes c) \<longrightarrow>
                map_of (chainSupport q') k = map_of (chainSupport q) k)
         \<and> (\<forall>k. (\<exists>cs. map_of (chainSupport q') k = Some cs \<and> sender \<in> set (signersOf cs))
                \<longleftrightarrow> k \<in> ECChain_Key ` set (suffixPrefixes c))
         \<and> (\<forall>k cs. map_of (chainSupport q') k = Some cs \<and> sender \<in> set (signersOf cs)
                \<longrightarrow> map_of (csSignatures cs) sender = Some None)))
   \<and> (sender \<in> senders q \<longrightarrow> ReceiveEachPrefix q sender c = Inr q)"
proof (intro conjI impI)
  assume "sender \<in> senders q"
  then show "ReceiveEachPrefix q sender c = Inr q"
    by (simp add: ReceiveEachPrefix_def receiveSender_old andThen_def)
next
  assume h: "quorum_inv q \<and> sender \<notin> senders q \<and> PowerTable_Get (powerTable q) sender = Inr p"
  then have inv: "quorum_inv q" and new: "sender \<notin> senders q"
    and get: "PowerTable_Get (powerTable q) sender = Inr p" by simp_all
  let ?K = "ECChain_Key ` set (suffixPrefixes c)"
  from ReceiveEachPrefix_new [OF inv new get, of c] obtain al where
    r: "ReceiveEachPrefix q sender c =
          Inr (q\<lparr>senders := insert sender (senders q),
                 sendersTotalPower := add64 (sendersTotalPower q) p, chainSupport := al\<rparr>)"
    and a: "\<forall>v \<in> set (suffixPrefixes c). map_of al (ECChain_Key v)
              = Some (recorded (powerTable q) (supportOrFresh q v) sender p None)"
    and b: "\<forall>k. k \<notin> ?K \<longrightarrow> map_of al k = map_of (chainSupport q) k"
    by blast
  have in_rec: "\<And>cs. sender \<in> set (signersOf (recorded (powerTable q) cs sender p None))"
    by (simp add: signersOf_def recorded_def dom_update)
  have nil_rec: "\<And>cs. map_of (csSignatures (recorded (powerTable q) cs sender p None)) sender = Some None"
    by (simp add: recorded_def update_conv')
  have old: "\<And>k cs. map_of (chainSupport q) k = Some cs \<Longrightarrow> sender \<notin> set (signersOf cs)"
    using inv new unfolding quorum_inv_alt support_inv_def by blast
  have iff: "\<forall>k. (\<exists>cs. map_of al k = Some cs \<and> sender \<in> set (signersOf cs)) \<longleftrightarrow> k \<in> ?K"
  proof (intro allI iffI)
    fix k assume "\<exists>cs. map_of al k = Some cs \<and> sender \<in> set (signersOf cs)"
    then show "k \<in> ?K" using b old by metis
  next
    fix k assume "k \<in> ?K"
    then obtain v where "v \<in> set (suffixPrefixes c)" "k = ECChain_Key v" by auto
    then show "\<exists>cs. map_of al k = Some cs \<and> sender \<in> set (signersOf cs)"
      using a in_rec by auto
  qed
  have nil: "\<forall>k cs. map_of al k = Some cs \<and> sender \<in> set (signersOf cs)
               \<longrightarrow> map_of (csSignatures cs) sender = Some None"
  proof (intro allI impI)
    fix k cs assume kc: "map_of al k = Some cs \<and> sender \<in> set (signersOf cs)"
    then have "k \<in> ?K" using iff by blast
    then obtain v where "v \<in> set (suffixPrefixes c)" "k = ECChain_Key v" by auto
    then have "cs = recorded (powerTable q) (supportOrFresh q v) sender p None"
      using a kc by auto
    then show "map_of (csSignatures cs) sender = Some None" using nil_rec by simp
  qed
  show "\<exists>q'. ReceiveEachPrefix q sender c = Inr q'
         \<and> q' = q\<lparr>senders := insert sender (senders q),
                   sendersTotalPower := add64 (sendersTotalPower q) p,
                   chainSupport := chainSupport q'\<rparr>
         \<and> (\<forall>v \<in> set (suffixPrefixes c). map_of (chainSupport q') (ECChain_Key v)
                = Some (recorded (powerTable q) (supportOrFresh q v) sender p None))
         \<and> (\<forall>k. k \<notin> ?K \<longrightarrow> map_of (chainSupport q') k = map_of (chainSupport q) k)
         \<and> (\<forall>k. (\<exists>cs. map_of (chainSupport q') k = Some cs \<and> sender \<in> set (signersOf cs))
                \<longleftrightarrow> k \<in> ?K)
         \<and> (\<forall>k cs. map_of (chainSupport q') k = Some cs \<and> sender \<in> set (signersOf cs)
                \<longrightarrow> map_of (csSignatures cs) sender = Some None)"
    using r a b iff nil
    by (intro exI [of _ "q\<lparr>senders := insert sender (senders q),
                 sendersTotalPower := add64 (sendersTotalPower q) p, chainSupport := al\<rparr>"]) simp
qed

theorem C3_receive_each_prefix_witness:
  "quorum_inv (newQuorumState exTable)
   \<and> 1 \<notin> senders (newQuorumState exTable)
   \<and> PowerTable_Get (powerTable (newQuorumState exTable)) 1 = Inr 21845
   \<and> (\<exists>q'. ReceiveEachPrefix (newQuorumState exTable) 1 exChain2 = Inr q'
          \<and> (\<forall>k. (\<exists>cs. map_of (chainSupport q') k = Some cs \<and> 1 \<in> set (signersOf cs))
                 \<longleftrightarrow> k \<in> ECChain_Key ` set (suffixPrefixes exChain2)))
   \<and> 1 \<in> senders ((newQuorumState exTable)\<lparr>senders := {1}\<rparr>)
   \<and> ReceiveEachPrefix ((newQuorumState exTable)\<lparr>senders := {1}\<rparr>) 1 exChain2
        = Inr ((newQuorumState exTable)\<lparr>senders := {1}\<rparr>)"
proof -
  have h1: "quorum_inv (newQuorumState exTable)" by (rule quorum_inv_newQuorumState)
  have h2: "1 \<notin> senders (newQuorumState exTable)" by (simp add: newQuorumState_def)
  have h3: "PowerTable_Get (powerTable (newQuorumState exTable)) 1 = Inr 21845"
    by (simp add: newQuorumState_def PowerTable_Get_def exTable_def)
  have h4: "1 \<in> senders ((newQuorumState exTable)\<lparr>senders := {1}\<rparr>)" by simp
  have a: "\<exists>q'. ReceiveEachPrefix (newQuorumState exTable) 1 exChain2 = Inr q'
          \<and> (\<forall>k. (\<exists>cs. map_of (chainSupport q') k = Some cs \<and> 1 \<in> set (signersOf cs))
                 \<longleftrightarrow> k \<in> ECChain_Key ` set (suffixPrefixes exChain2))"
    using conjunct1 [OF C3_receive_each_prefix [of "newQuorumState exTable" 1 21845 exChain2]]
      h1 h2 h3 by (elim impE) (simp, elim exE conjE, intro exI conjI, assumption+)
  have b: "ReceiveEachPrefix ((newQuorumState exTable)\<lparr>senders := {1}\<rparr>) 1 exChain2
        = Inr ((newQuorumState exTable)\<lparr>senders := {1}\<rparr>)"
    using conjunct2 [OF C3_receive_each_prefix [of "(newQuorumState exTable)\<lparr>senders := {1}\<rparr>" 1 0 exChain2]] h4
    by (elim impE) simp_all
  show ?thesis using h1 h2 h3 h4 a b by (intro conjI)
qed

section \<open>The receive operations keep the accumulator invariant\<close>

lemma set_update_subset: "set (AList.update k v al) \<subseteq> insert (k, v) (set al)"
  by (induction al) auto

lemma PowerTable_Get_powerOf: "PowerTable_Get pt a = Inr p \<Longrightarrow> powerOf pt a = p"
  by (simp add: powerOf_def)

lemma quorumState_Receive_new:
  assumes inv: "quorum_inv q" and new: "sender \<notin> senders q"
    and get: "PowerTable_Get (powerTable q) sender = Inr p"
  shows "quorumState_Receive q sender v sg =
           Inr (q\<lparr>senders := insert sender (senders q),
                  sendersTotalPower := add64 (sendersTotalPower q) p,
                  chainSupport := AList.update (ECChain_Key v)
                    (recorded (powerTable q) (supportOrFresh q v) sender p sg) (chainSupport q)\<rparr>)"
proof -
  let ?q1 = "q\<lparr>senders := insert sender (senders q),
                sendersTotalPower := add64 (sendersTotalPower q) p\<rparr>"
  have sof: "supportOrFresh ?q1 v = supportOrFresh q v" by (simp add: supportOrFresh_def)
  have "signatureOf (csSignatures (supportOrFresh ?q1 v)) sender = None"
    using no_signature_of_new_sender(2) [OF inv new] by (simp add: sof)
  then have "receiveInner ?q1 sender v p sg =
               Inr (?q1\<lparr>chainSupport := AList.update (ECChain_Key v)
                  (recorded (powerTable ?q1) (supportOrFresh ?q1 v) sender p sg) (chainSupport ?q1)\<rparr>)"
    by (rule receiveInner_eq)
  then show ?thesis
    by (simp add: quorumState_Receive_def receiveSender_new [OF new get] andThen_def sof)
qed

lemma quorumState_Receive_old:
  "sender \<in> senders q \<Longrightarrow> quorumState_Receive q sender v sg = Inr q"
  by (simp add: quorumState_Receive_def receiveSender_old andThen_def)

lemma receiveSender_Inr_cases:
  assumes "receiveSender q sender = Inr x"
  shows "sender \<in> senders q \<or> (\<exists>p. PowerTable_Get (powerTable q) sender = Inr p)"
  using assms by (auto simp: receiveSender_def andThen_def split: if_splits sum.splits)

lemma quorum_inv_Receive:
  assumes inv: "quorum_inv q" and r: "quorumState_Receive q sender v sg = Inr q'"
  shows "quorum_inv q'"
proof (cases "sender \<in> senders q")
  case True
  then show ?thesis using inv r by (simp add: quorumState_Receive_old)
next
  case False
  obtain p where get: "PowerTable_Get (powerTable q) sender = Inr p"
    using r False
    by (auto simp: quorumState_Receive_def receiveSender_def andThen_def split: sum.splits)
  let ?e = "recorded (powerTable q) (supportOrFresh q v) sender p sg"
  have q': "q' = q\<lparr>senders := insert sender (senders q),
                  sendersTotalPower := add64 (sendersTotalPower q) p,
                  chainSupport := AList.update (ECChain_Key v) ?e (chainSupport q)\<rparr>"
    using r quorumState_Receive_new [OF inv False get, of v sg] by simp
  have e: "support_inv q' ?e"
    using supportOrFresh_pre [OF inv, of v] no_signature_of_new_sender(1) [OF inv False, of v]
    by (intro support_inv_recorded) (auto simp: q' PowerTable_Get_powerOf [OF get])
  have old: "\<forall>(k, cs) \<in> set (chainSupport q). support_inv q' cs"
    using inv by (auto simp: quorum_inv_def q' intro: support_inv_weaken)
  have "\<forall>(k, cs) \<in> set (chainSupport q'). support_inv q' cs"
  proof (clarify)
    fix k cs assume "(k, cs) \<in> set (chainSupport q')"
    then have "(k, cs) \<in> insert (ECChain_Key v, ?e) (set (chainSupport q))"
      using set_update_subset [of "ECChain_Key v" ?e "chainSupport q"] by (auto simp: q')
    then show "support_inv q' cs" using e old by auto
  qed
  moreover have "distinct (map fst (chainSupport q'))"
    using inv by (simp add: q' quorum_inv_def distinct_update)
  ultimately show ?thesis by (simp add: quorum_inv_def)
qed

lemma quorum_inv_ReceiveEachPrefix:
  assumes inv: "quorum_inv q" and r: "ReceiveEachPrefix q sender c = Inr q'"
  shows "quorum_inv q'"
proof (cases "sender \<in> senders q")
  case True
  then show ?thesis
    using inv r by (simp add: ReceiveEachPrefix_def receiveSender_old andThen_def)
next
  case False
  obtain p where get: "PowerTable_Get (powerTable q) sender = Inr p"
    using r False
    by (auto simp: ReceiveEachPrefix_def receiveSender_def andThen_def split: sum.splits)
  from ReceiveEachPrefix_new [OF inv False get, of c] r obtain al where
    q': "q' = q\<lparr>senders := insert sender (senders q),
                 sendersTotalPower := add64 (sendersTotalPower q) p, chainSupport := al\<rparr>"
    and d: "distinct (map fst al)"
    and a: "\<forall>v \<in> set (suffixPrefixes c). map_of al (ECChain_Key v)
              = Some (recorded (powerTable q) (supportOrFresh q v) sender p None)"
    and b: "\<forall>k. k \<notin> ECChain_Key ` set (suffixPrefixes c) \<longrightarrow> map_of al k = map_of (chainSupport q) k"
    by auto
  have "\<forall>k cs. map_of (chainSupport q') k = Some cs \<longrightarrow> support_inv q' cs"
  proof (intro allI impI)
    fix k cs assume m: "map_of (chainSupport q') k = Some cs"
    show "support_inv q' cs"
    proof (cases "k \<in> ECChain_Key ` set (suffixPrefixes c)")
      case True
      then obtain v where v: "v \<in> set (suffixPrefixes c)" "k = ECChain_Key v" by auto
      then have cs: "cs = recorded (powerTable q) (supportOrFresh q v) sender p None"
        using a m by (simp add: q')
      show ?thesis
        unfolding cs
        using supportOrFresh_pre [OF inv, of v] no_signature_of_new_sender(1) [OF inv False, of v]
        by (intro support_inv_recorded) (auto simp: q' PowerTable_Get_powerOf [OF get])
    next
      case False
      then have "map_of (chainSupport q) k = Some cs" using b m by (simp add: q')
      then have "support_inv q cs" using inv unfolding quorum_inv_alt by blast
      then show ?thesis by (rule support_inv_weaken) (auto simp: q')
    qed
  qed
  then show ?thesis unfolding quorum_inv_alt using d by (simp add: q')
qed

lemma quorum_inv_ReceiveJustification:
  assumes "quorum_inv q" and "ReceiveJustification q v j = Inr q'"
  shows "quorum_inv q'"
proof -
  obtain rj where "q' = q\<lparr>receivedJustification := rj\<rparr>"
    using assms(2)
    by (cases j; cases "map_of (receivedJustification q) (ECChain_Key v)")
       (auto simp: ReceiveJustification_def Let_def intro: that [of "receivedJustification q"])
  then show ?thesis using assms(1) by (simp add: quorum_inv_def support_inv_def)
qed

section \<open>Finding a strong quorum\<close>


















lemma exTable_Get [simp]:
  "PowerTable_Get exTable a =
     Inr (if a = 1 then 21845 else if a = 2 then 21845 else if a = 3 then 21845 else 0)"
  by (simp add: PowerTable_Get_def exTable_def)

lemma exTable_total [simp]: "ScaledTotal exTable = 65535"
  by (simp add: exTable_def)






section \<open>Round trip of the codecs\<close>

text \<open>
  C9.  For a message whose CBOR marshalling succeeds and unmarshals back to the message,
  decoding the CBOR encoding gives the message back; when moreover the marshalled bytes
  are at most 1 MiB long and the zstd frame of these bytes decompresses to them, the
  zstd-wrapped encoding succeeds and decodes to the message as well.
\<close>

theorem C9_codec_roundtrip:
  "(marshal m = Inr b \<and> unmarshal b = Inr m \<longrightarrow>
      CBOR_Encode marshal m = (b, None) \<and> CBOR_Decode unmarshal b = Inr m)
   \<and> (marshal m = Inr b \<and> unmarshal b = Inr m \<and> length b \<le> 2 ^ 20
       \<and> decompress (compress b) = Some b \<longrightarrow>
      ZSTD_Encode marshal compress m = (compress b, None)
      \<and> ZSTD_Decode unmarshal decompress (compress b) = Inr m)"
  by (simp add: CBOR_Encode_def CBOR_Decode_def ZSTD_Encode_def ZSTD_Decode_def DecodeAll_def
      maxDecompressedSize_def)

theorem C9_codec_roundtrip_witness:
  "CBOR_Encode (\<lambda>m. Inr (be32 m)) (7::nat) = ([0, 0, 0, 7], None)
   \<and> CBOR_Decode (\<lambda>v. if v = [0, 0, 0, 7] then Inr (7::nat) else Inl ErrUnmarshal) [0, 0, 0, 7] = Inr (7::nat)
   \<and> ZSTD_Encode (\<lambda>m. Inr (be32 m)) rev (7::nat) = ([7, 0, 0, 0], None)
   \<and> ZSTD_Decode (\<lambda>v. if v = [0, 0, 0, 7] then Inr (7::nat) else Inl ErrUnmarshal)
        (\<lambda>v. Some (rev v)) [7, 0, 0, 0] = Inr (7::nat)"
  using C9_codec_roundtrip [where marshal = "\<lambda>m. Inr (be32 m)" and m = "7::nat" and b = "[0, 0, 0, 7]"
      and unmarshal = "\<lambda>v. if v = [0, 0, 0, 7] then Inr (7::nat) else Inl ErrUnmarshal"
      and compress = rev and decompress = "\<lambda>v. Some (rev v)"]
  by (simp add: be32_def)

end
